theory Spec2Isabelle
  imports Main "HOL-Library.Sublist"
begin

section \<open>The Techkkim service worker (sw.js)\<close>

text \<open>
  A shallow embedding of the service worker script \<^verbatim>\<open>sw.js\<close>: the cache store it keeps,
  its three caching strategies, the offline fallback, the fetch router, the install
  handler and the background sync.

  The script runs inside a browser. What the browser provides is modelled as follows.
  \<^item> The network is an oracle \<open>network\<close>: the outcome of the \<open>n\<close>-th \<^verbatim>\<open>fetch\<close> call
    of a run, for the request it sends. A fetch answers with a response (of any status),
    fails (the promise rejects) or never settles.
  \<^item> The \<^verbatim>\<open>caches\<close> object is a list of named caches in creation order; a cache is a
    list of entries keyed by request URL. As in the Cache API, only \<^verbatim>\<open>GET\<close> requests are
    matched or stored. \<^verbatim>\<open>Vary\<close> headers and store failures (quota, I/O) are not modelled.
  \<^item> A promise settles as fulfilled with a value, rejected, or stays pending for ever.
    An operation the script starts without awaiting it (\<^verbatim>\<open>cache.put\<close>, the notification
    of clients) is run to its end: the world a function returns is the one reached when
    every branch it started has settled.
  \<^item> URL parsing (\<^verbatim>\<open>new URL(u).origin\<close>, resolving a relative URL) is a parameter of the
    model, the record \<open>host\<close>.
  \<^item> Console logging is left out.
\<close>

subsection \<open>Requests, responses, promises\<close>

record request =
  rmethod :: string
  url :: string
  destination :: string
  rheaders :: "(string \<times> string) list"
  rbody :: string

record response =
  status :: nat
  statusText :: string
  headers :: "(string \<times> string) list"
  body :: string

datatype 'a promise = Fulfilled 'a | Rejected | Pending

datatype net_outcome = NetResp response | NetFail | NetHang

type_synonym network = "nat \<Rightarrow> request \<Rightarrow> net_outcome"

record host =
  location_origin :: string
  url_origin :: "string \<Rightarrow> string"
  resolve_url :: "string \<Rightarrow> string"

record message =
  mtype :: string
  synced :: nat

type_synonym cache = "(string \<times> response) list"

record world =
  caches :: "(string \<times> cache) list"
  fetch_log :: "request list"
  skip_waiting :: bool
  clients :: "nat list"
  posted :: "(nat \<times> message) list"

subsection \<open>Constants of the script\<close>

definition STATIC_CACHE :: string where
  "STATIC_CACHE = ''techkkim-static-v1.0''"

definition DYNAMIC_CACHE :: string where
  "DYNAMIC_CACHE = ''techkkim-dynamic-v1.0''"

definition STATIC_ASSETS :: "string list" where
  "STATIC_ASSETS =
    [''/'',
     ''/enhanced-techkkim.html'',
     ''/manifest.json'',
     ''https://cdn.tailwindcss.com'',
     ''https://storage.googleapis.com/workspace-0f70711f-8b4e-4d94-86f1-2a93ccde5887/image/2a4f375f-04f9-4560-a36d-b544a9f1d6e4.png'',
     ''https://storage.googleapis.com/workspace-0f70711f-8b4e-4d94-86f1-2a93ccde5887/image/3eb146d2-9782-4e05-91aa-79f4f2370c19.png'',
     ''https://storage.googleapis.com/workspace-0f70711f-8b4e-4d94-86f1-2a93ccde5887/image/95f6e6d0-426a-4d52-8213-ab0a6ba2def0.png'',
     ''https://storage.googleapis.com/workspace-0f70711f-8b4e-4d94-86f1-2a93ccde5887/image/0300a514-6c23-471e-b3b0-58218d3f7379.png'',
     ''https://storage.googleapis.com/workspace-0f70711f-8b4e-4d94-86f1-2a93ccde5887/image/13a22ef9-e9d3-4399-b008-405cacdb8ac7.png'']"

text \<open>
  The regular expressions of \<^verbatim>\<open>DYNAMIC_PATTERNS\<close> use three constructs only: literal
  characters, the end-of-input assertion \<^verbatim>\<open>$\<close> and alternation. A pattern is a list of
  alternatives, an alternative a sequence of atoms.
\<close>

datatype atom = Lit string | Eoi

type_synonym regex = "atom list list"

definition DYNAMIC_PATTERNS :: "regex list" where
  "DYNAMIC_PATTERNS =
    [[[Lit ''/api/'']],
     [[Lit ''/monastery/'']],
     [[Lit ''/archives/'']],
     [[Lit ''.jpg'', Eoi], [Lit ''.png'', Eoi], [Lit ''.webp'', Eoi], [Lit ''.gif'', Eoi]]]"

subsection \<open>String search\<close>

text \<open>\<^verbatim>\<open>s.includes(t)\<close>: \<open>t\<close> occurs in \<open>s\<close> at some position.\<close>

fun js_includes :: "string \<Rightarrow> string \<Rightarrow> bool" where
  "js_includes [] t = (t = [])"
| "js_includes (c # cs) t = (prefix t (c # cs) \<or> js_includes cs t)"

text \<open>An alternative matches at the start of the rest of the input.\<close>

fun match_seq :: "atom list \<Rightarrow> string \<Rightarrow> bool" where
  "match_seq [] s = True"
| "match_seq (Lit l # as) s = (prefix l s \<and> match_seq as (drop (length l) s))"
| "match_seq (Eoi # as) s = (s = [] \<and> match_seq as s)"

definition match_here :: "regex \<Rightarrow> string \<Rightarrow> bool" where
  "match_here r s = list_ex (\<lambda>alt. match_seq alt s) r"

text \<open>
  \<^verbatim>\<open>pattern.test(s)\<close> for a pattern without flags: the search tries every start
  position, the end of the input included.
\<close>

fun regex_test :: "regex \<Rightarrow> string \<Rightarrow> bool" where
  "regex_test r [] = match_here r []"
| "regex_test r (c # cs) = (match_here r (c # cs) \<or> regex_test r cs)"

subsection \<open>The cache store\<close>

text \<open>
  \<^verbatim>\<open>cache.match(request)\<close> answers for \<^verbatim>\<open>GET\<close> requests only. \<^verbatim>\<open>cache.put\<close> refuses any
  other method (its promise rejects; the script never awaits it, so nothing is stored and
  nothing else happens); it removes the entry of the same URL and appends the new one.
\<close>

definition cache_match :: "request \<Rightarrow> cache \<Rightarrow> response option" where
  "cache_match req c = (if rmethod req = ''GET'' then map_of c (url req) else None)"

definition cache_put :: "request \<Rightarrow> response \<Rightarrow> cache \<Rightarrow> cache" where
  "cache_put req resp c =
     (if rmethod req = ''GET'' then filter (\<lambda>e. fst e \<noteq> url req) c @ [(url req, resp)] else c)"

text \<open>\<^verbatim>\<open>caches.open(name)\<close> creates the cache when it does not exist.\<close>

definition caches_open :: "string \<Rightarrow> (string \<times> cache) list \<Rightarrow> (string \<times> cache) list" where
  "caches_open name cs = (if name \<in> set (map fst cs) then cs else cs @ [(name, [])])"

text \<open>The cache a handle obtained from \<^verbatim>\<open>caches.open(name)\<close> stands for.\<close>

definition region :: "string \<Rightarrow> (string \<times> cache) list \<Rightarrow> cache" where
  "region name cs = (case map_of cs name of Some c \<Rightarrow> c | None \<Rightarrow> [])"

text \<open>\<^verbatim>\<open>caches.match(request)\<close>: the first match, the caches taken in creation order.\<close>

fun caches_match :: "request \<Rightarrow> (string \<times> cache) list \<Rightarrow> response option" where
  "caches_match req [] = None"
| "caches_match req ((name, c) # cs) =
     (case cache_match req c of Some r \<Rightarrow> Some r | None \<Rightarrow> caches_match req cs)"

text \<open>\<^verbatim>\<open>cache.put(request, response)\<close> on the handle of the cache \<open>name\<close>.\<close>

fun put_in :: "string \<Rightarrow> request \<Rightarrow> response \<Rightarrow> (string \<times> cache) list \<Rightarrow> (string \<times> cache) list" where
  "put_in name req resp [] = []"
| "put_in name req resp ((n, c) # cs) =
     (if n = name then (n, cache_put req resp c) # cs else (n, c) # put_in name req resp cs)"

subsection \<open>The network\<close>

definition fetch :: "network \<Rightarrow> request \<Rightarrow> world \<Rightarrow> net_outcome \<times> world" where
  "fetch net req w = (net (length (fetch_log w)) req, w\<lparr>fetch_log := fetch_log w @ [req]\<rparr>)"

subsection \<open>Offline fallback\<close>

text \<open>
  The two template literals of the script span many lines; they are written as the list of
  their lines, joined by line feeds. Characters outside ASCII are given by their UTF-8
  bytes.
\<close>

fun unlines :: "string list \<Rightarrow> string" where
  "unlines [] = []"
| "unlines [l] = l"
| "unlines (l # m # ls) = l @ CHR 0x0A # unlines (m # ls)"

definition OFFLINE_HTML :: string where
  \<open>OFFLINE_HTML = unlines
    ['''',
     ''      <!DOCTYPE html>'',
     ''      <html>'',
     ''        <head>'',
     ''          <title>Techkkim - Offline</title>'',
     ''          <style>'',
     ''            body { '',
     ''              font-family: Arial, sans-serif; '',
     ''              text-align: center; '',
     ''              padding: 50px; '',
     ''              background: linear-gradient(135deg, #800000, #FFC107);'',
     ''              color: white;'',
     ''              min-height: 100vh;'',
     ''              margin: 0;'',
     ''              display: flex;'',
     ''              flex-direction: column;'',
     ''              justify-content: center;'',
     ''              align-items: center;'',
     ''            }'',
     ''            .offline-container {'',
     ''              background: rgba(255, 255, 255, 0.1);'',
     ''              padding: 40px;'',
     ''              border-radius: 20px;'',
     ''              box-shadow: 0 10px 30px rgba(0, 0, 0, 0.3);'',
     ''              backdrop-filter: blur(10px);'',
     ''            }'',
     ''            h1 { font-size: 2.5rem; margin-bottom: 1rem; }'',
     ''            p { font-size: 1.2rem; margin-bottom: 2rem; }'',
     ''            .monastery-icon { font-size: 4rem; margin-bottom: 2rem; }'',
     ''            .retry-btn {'',
     ''              background: #FFC107;'',
     ''              color: #800000;'',
     ''              border: none;'',
     ''              padding: 15px 30px;'',
     ''              border-radius: 25px;'',
     ''              font-size: 1.1rem;'',
     ''              font-weight: bold;'',
     ''              cursor: pointer;'',
     ''              transition: all 0.3s ease;'',
     ''            }'',
     ''            .retry-btn:hover {'',
     ''              background: #FFD54F;'',
     ''              transform: scale(1.05);'',
     ''            }'',
     ''          </style>'',
     ''        </head>'',
     ''        <body>'',
     ''          <div class="offline-container">'',
     ''            <div class="monastery-icon">'' @ [CHR 0xF0, CHR 0x9F, CHR 0x8F, CHR 0x94] @ [CHR 0xEF, CHR 0xB8, CHR 0x8F] @ ''</div>'',
     ''            <h1>Techkkim Offline Mode</h1>'',
     ''            <p>You're currently offline, but you can still explore cached monastery content!</p>'',
     ''            <p>'' @ [CHR 0xF0, CHR 0x9F, CHR 0xA4, CHR 0x96] @ '' AI features, '' @ [CHR 0xF0, CHR 0x9F, CHR 0x93, CHR 0xB1] @ '' AR mode, and '' @ [CHR 0xF0, CHR 0x9F, CHR 0x94, CHR 0xB4] @ '' live streaming require internet connection.</p>'',
     ''            <button class="retry-btn" onclick="window.location.reload()">'',
     ''              '' @ [CHR 0xF0, CHR 0x9F, CHR 0x94, CHR 0x84] @ '' Try Again'',
     ''            </button>'',
     ''          </div>'',
     ''        </body>'',
     ''      </html>'',
     ''    '']\<close>

definition OFFLINE_SVG :: string where
  \<open>OFFLINE_SVG = unlines
    ['''',
     ''      <svg width="400" height="300" xmlns="http://www.w3.org/2000/svg">'',
     ''        <rect width="400" height="300" fill="#800000"/>'',
     ''        <text x="200" y="130" text-anchor="middle" fill="#FFC107" font-size="20" font-family="Arial">'',
     ''          '' @ [CHR 0xF0, CHR 0x9F, CHR 0x8F, CHR 0x94] @ [CHR 0xEF, CHR 0xB8, CHR 0x8F] @ '' Monastery Image'',
     ''        </text>'',
     ''        <text x="200" y="160" text-anchor="middle" fill="white" font-size="16" font-family="Arial">'',
     ''          Available offline soon'',
     ''        </text>'',
     ''        <text x="200" y="190" text-anchor="middle" fill="white" font-size="14" font-family="Arial">'',
     ''          Techkkim Enhanced'',
     ''        </text>'',
     ''      </svg>'',
     ''    '']\<close>

definition getOfflineFallback :: "request \<Rightarrow> response" where
  "getOfflineFallback request =
     (if destination request = ''document'' then
        \<lparr>status = 200, statusText = ''OK'',
         headers = [(''Content-Type'', ''text/html'')], body = OFFLINE_HTML\<rparr>
      else if destination request = ''image'' then
        \<lparr>status = 200, statusText = ''OK'',
         headers = [(''Content-Type'', ''image/svg+xml'')], body = OFFLINE_SVG\<rparr>
      else
        \<lparr>status = 503, statusText = ''Service Unavailable'',
         headers = [], body = ''Offline - Content not available''\<rparr>)"

subsection \<open>The three strategies\<close>

text \<open>
  Each strategy is an \<^verbatim>\<open>async\<close> function: it yields the promise it returns and the world
  it leaves. \<open>Fulfilled None\<close> is a promise fulfilled with \<^verbatim>\<open>undefined\<close>. In
  \<open>cacheFirstStrategy\<close> the \<^verbatim>\<open>try\<close> block catches the rejection of \<^verbatim>\<open>fetch\<close>.
\<close>

definition cacheFirstStrategy :: "network \<Rightarrow> request \<Rightarrow> world \<Rightarrow> response option promise \<times> world" where
  "cacheFirstStrategy net request w =
     (case caches_match request (caches w) of
        Some cachedResponse \<Rightarrow> (Fulfilled (Some cachedResponse), w)
      | None \<Rightarrow>
          (case fetch net request w of
             (NetResp networkResponse, w1) \<Rightarrow>
               (Fulfilled (Some networkResponse),
                if status networkResponse = 200
                then w1\<lparr>caches := put_in STATIC_CACHE request networkResponse
                                     (caches_open STATIC_CACHE (caches w1))\<rparr>
                else w1)
           | (NetFail, w1) \<Rightarrow> (Fulfilled (Some (getOfflineFallback request)), w1)
           | (NetHang, w1) \<Rightarrow> (Pending, w1)))"

definition networkFirstStrategy :: "network \<Rightarrow> request \<Rightarrow> world \<Rightarrow> response option promise \<times> world" where
  "networkFirstStrategy net request w =
     (case fetch net request w of
        (NetResp networkResponse, w1) \<Rightarrow>
          (Fulfilled (Some networkResponse),
           if status networkResponse = 200
           then w1\<lparr>caches := put_in DYNAMIC_CACHE request networkResponse
                                (caches_open DYNAMIC_CACHE (caches w1))\<rparr>
           else w1)
      | (NetFail, w1) \<Rightarrow>
          (case caches_match request (caches w1) of
             Some cachedResponse \<Rightarrow> (Fulfilled (Some cachedResponse), w1)
           | None \<Rightarrow> (Fulfilled (Some (getOfflineFallback request)), w1))
      | (NetHang, w1) \<Rightarrow> (Pending, w1))"

text \<open>
  \<open>staleWhileRevalidateStrategy\<close> starts the fetch and does not await it: the promise
  \<open>networkResponsePromise\<close> is what the \<^verbatim>\<open>then\<close>/\<^verbatim>\<open>catch\<close> chain on the fetch settles to,
  and the function returns \<^verbatim>\<open>cachedResponse || networkResponsePromise\<close>.
\<close>

definition staleWhileRevalidateStrategy :: "network \<Rightarrow> request \<Rightarrow> world \<Rightarrow> response option promise \<times> world" where
  "staleWhileRevalidateStrategy net request w =
     (let w0 = w\<lparr>caches := caches_open DYNAMIC_CACHE (caches w)\<rparr>;
          cachedResponse = cache_match request (region DYNAMIC_CACHE (caches w0));
          (networkResponsePromise, w2) =
            (case fetch net request w0 of
               (NetResp response, w1) \<Rightarrow>
                 (Fulfilled (Some response),
                  if status response = 200
                  then w1\<lparr>caches := put_in DYNAMIC_CACHE request response (caches w1)\<rparr>
                  else w1)
             | (NetFail, w1) \<Rightarrow> (Fulfilled cachedResponse, w1)
             | (NetHang, w1) \<Rightarrow> (Pending, w1))
      in (case cachedResponse of
            Some r \<Rightarrow> (Fulfilled (Some r), w2)
          | None \<Rightarrow> (networkResponsePromise, w2)))"

subsection \<open>The fetch listener\<close>

text \<open>
  The listener either returns without answering (\<open>None\<close>: the browser handles the
  request itself) or calls \<^verbatim>\<open>event.respondWith\<close> with the promise of one strategy.
\<close>

definition respondWith :: "response option promise \<times> world \<Rightarrow> response option promise option \<times> world" where
  "respondWith pw = (Some (fst pw), snd pw)"

definition fetch_listener :: "host \<Rightarrow> network \<Rightarrow> request \<Rightarrow> world \<Rightarrow> response option promise option \<times> world" where
  "fetch_listener h net request w =
     (if rmethod request \<noteq> ''GET'' then (None, w)
      else if url_origin h (url request) = location_origin h then
        respondWith (cacheFirstStrategy net request w)
      else if list_ex (\<lambda>asset. js_includes (url request) asset) STATIC_ASSETS then
        respondWith (cacheFirstStrategy net request w)
      else if list_ex (\<lambda>pattern. regex_test pattern (url request)) DYNAMIC_PATTERNS then
        respondWith (networkFirstStrategy net request w)
      else
        respondWith (staleWhileRevalidateStrategy net request w))"

subsection \<open>The install listener\<close>

text \<open>\<^verbatim>\<open>new Request(u)\<close> for a URL given as text: a \<^verbatim>\<open>GET\<close> request.\<close>

definition Request :: "host \<Rightarrow> string \<Rightarrow> request" where
  "Request h u = \<lparr>rmethod = ''GET'', url = resolve_url h u, destination = [],
                  rheaders = [], rbody = []\<rparr>"

text \<open>
  \<^verbatim>\<open>cache.addAll(urls)\<close> of the Cache API: every URL is fetched; when a fetch fails or
  answers with a status outside 200..299 (or with 206) the promise rejects and nothing
  is stored; otherwise every response is stored. The URLs of the list are taken to
  resolve to different addresses, as those of \<open>STATIC_ASSETS\<close> do.
\<close>

fun fetch_all :: "network \<Rightarrow> request list \<Rightarrow> world \<Rightarrow> net_outcome list \<times> world" where
  "fetch_all net [] w = ([], w)"
| "fetch_all net (r # rs) w =
     (case fetch net r w of
        (out, w1) \<Rightarrow> (case fetch_all net rs w1 of (outs, w2) \<Rightarrow> (out # outs, w2)))"

fun refused :: "net_outcome \<Rightarrow> bool" where
  "refused (NetResp r) = (status r < 200 \<or> 299 < status r \<or> status r = 206)"
| "refused NetFail = True"
| "refused NetHang = False"

fun put_all :: "string \<Rightarrow> (request \<times> net_outcome) list \<Rightarrow> (string \<times> cache) list \<Rightarrow> (string \<times> cache) list" where
  "put_all name [] cs = cs"
| "put_all name ((req, NetResp r) # rest) cs = put_all name rest (put_in name req r cs)"
| "put_all name ((req, out) # rest) cs = put_all name rest cs"

definition cache_addAll :: "network \<Rightarrow> string \<Rightarrow> request list \<Rightarrow> world \<Rightarrow> unit promise \<times> world" where
  "cache_addAll net name reqs w =
     (case fetch_all net reqs w of
        (outs, w1) \<Rightarrow>
          if list_ex refused outs then (Rejected, w1)
          else if list_ex (\<lambda>out. out = NetHang) outs then (Pending, w1)
          else (Fulfilled (), w1\<lparr>caches := put_all name (zip reqs outs) (caches w1)\<rparr>))"

text \<open>
  The promise handed to \<^verbatim>\<open>event.waitUntil\<close>: open the static cache, \<^verbatim>\<open>addAll\<close>, then
  \<^verbatim>\<open>skipWaiting\<close>; the final \<^verbatim>\<open>catch\<close> handler logs the error and returns normally.
\<close>

definition install_listener :: "host \<Rightarrow> network \<Rightarrow> world \<Rightarrow> unit promise \<times> world" where
  "install_listener h net w =
     (case cache_addAll net STATIC_CACHE (map (Request h) STATIC_ASSETS)
             (w\<lparr>caches := caches_open STATIC_CACHE (caches w)\<rparr>) of
        (Fulfilled u, w1) \<Rightarrow> (Fulfilled (), w1\<lparr>skip_waiting := True\<rparr>)
      | (Rejected, w1) \<Rightarrow> (Fulfilled (), w1)
      | (Pending, w1) \<Rightarrow> (Pending, w1))"

subsection \<open>Background sync\<close>

text \<open>
  A pending item is represented by its JSON text, so \<^verbatim>\<open>JSON.stringify\<close> is the identity.
  The two queue readers of the script are stubs that return the empty list; the functions
  \<open>syncMonasteryData_from\<close> and \<open>syncChatMessages_from\<close> are the bodies of the two sync
  functions for a given answer of the queue reader.
\<close>

type_synonym item = string

definition JSON_stringify :: "item \<Rightarrow> string" where
  "JSON_stringify x = x"

definition getPendingVisits :: "item list" where
  "getPendingVisits = []"

definition getPendingChatMessages :: "item list" where
  "getPendingChatMessages = []"

definition post_request :: "host \<Rightarrow> string \<Rightarrow> string \<Rightarrow> request" where
  "post_request h endpoint payload =
     \<lparr>rmethod = ''POST'', url = resolve_url h endpoint, destination = [],
      rheaders = [(''Content-Type'', ''application/json'')], rbody = payload\<rparr>"

text \<open>
  The \<^verbatim>\<open>for\<close> loop with an awaited \<^verbatim>\<open>fetch\<close> in its body: the next item is sent
  once the previous fetch has answered; a rejected fetch leaves the loop by the exception.
\<close>

fun post_each :: "host \<Rightarrow> network \<Rightarrow> string \<Rightarrow> item list \<Rightarrow> world \<Rightarrow> unit promise \<times> world" where
  "post_each h net endpoint [] w = (Fulfilled (), w)"
| "post_each h net endpoint (x # xs) w =
     (case fetch net (post_request h endpoint (JSON_stringify x)) w of
        (NetResp r, w1) \<Rightarrow> post_each h net endpoint xs w1
      | (NetFail, w1) \<Rightarrow> (Rejected, w1)
      | (NetHang, w1) \<Rightarrow> (Pending, w1))"

definition SYNC_COMPLETE :: "nat \<Rightarrow> message" where
  "SYNC_COMPLETE n = \<lparr>mtype = ''SYNC_COMPLETE'', synced = n\<rparr>"

text \<open>\<^verbatim>\<open>self.clients.matchAll()\<close> answers with the controlled clients.\<close>

definition notify_clients :: "nat \<Rightarrow> world \<Rightarrow> world" where
  "notify_clients n w =
     w\<lparr>posted := posted w @ map (\<lambda>client. (client, SYNC_COMPLETE n)) (clients w)\<rparr>"

definition syncMonasteryData_from :: "host \<Rightarrow> network \<Rightarrow> item list \<Rightarrow> world \<Rightarrow> unit promise \<times> world" where
  "syncMonasteryData_from h net pendingVisits w =
     (case post_each h net ''/api/monastery-visits'' pendingVisits w of
        (Fulfilled u, w1) \<Rightarrow> (Fulfilled (), notify_clients (length pendingVisits) w1)
      | (Rejected, w1) \<Rightarrow> (Fulfilled (), w1)
      | (Pending, w1) \<Rightarrow> (Pending, w1))"

definition syncChatMessages_from :: "host \<Rightarrow> network \<Rightarrow> item list \<Rightarrow> world \<Rightarrow> unit promise \<times> world" where
  "syncChatMessages_from h net pendingMessages w =
     (case post_each h net ''/api/chat-messages'' pendingMessages w of
        (Fulfilled u, w1) \<Rightarrow> (Fulfilled (), w1)
      | (Rejected, w1) \<Rightarrow> (Fulfilled (), w1)
      | (Pending, w1) \<Rightarrow> (Pending, w1))"

definition syncMonasteryData :: "host \<Rightarrow> network \<Rightarrow> world \<Rightarrow> unit promise \<times> world" where
  "syncMonasteryData h net w = syncMonasteryData_from h net getPendingVisits w"

definition syncChatMessages :: "host \<Rightarrow> network \<Rightarrow> world \<Rightarrow> unit promise \<times> world" where
  "syncChatMessages h net w = syncChatMessages_from h net getPendingChatMessages w"

text \<open>The sync listener: \<open>None\<close> when the tag is not one of the two it knows.\<close>

definition sync_listener :: "host \<Rightarrow> network \<Rightarrow> string \<Rightarrow> world \<Rightarrow> unit promise option \<times> world" where
  "sync_listener h net tag w =
     (if tag = ''background-monastery-sync'' then
        (case syncMonasteryData h net w of (p, w1) \<Rightarrow> (Some p, w1))
      else if tag = ''background-chat-sync'' then
        (case syncChatMessages h net w of (p, w1) \<Rightarrow> (Some p, w1))
      else (None, w))"

subsection \<open>The router as the specification describes it\<close>

text \<open>
  The specification's router: a request that is not a \<^verbatim>\<open>GET\<close> is left alone; otherwise
  the first rule that applies names the strategy. The URL tests are stated here with the
  library's \<open>sublist\<close> (occurs somewhere in) and \<open>suffix\<close> (ends with), not with the
  script's search functions.
\<close>

datatype strategy = CacheFirst | NetworkFirst | StaleWhileRevalidate

definition matches_static_asset :: "string \<Rightarrow> bool" where
  "matches_static_asset u = (\<exists>asset \<in> set STATIC_ASSETS. sublist asset u)"

definition matches_dynamic_pattern :: "string \<Rightarrow> bool" where
  "matches_dynamic_pattern u =
     (sublist ''/api/'' u \<or> sublist ''/monastery/'' u \<or> sublist ''/archives/'' u \<or>
      suffix ''.jpg'' u \<or> suffix ''.png'' u \<or> suffix ''.webp'' u \<or> suffix ''.gif'' u)"

definition spec_route :: "host \<Rightarrow> request \<Rightarrow> strategy option" where
  "spec_route h request =
     (if rmethod request \<noteq> ''GET'' then None
      else if url_origin h (url request) = location_origin h then Some CacheFirst
      else if matches_static_asset (url request) then Some CacheFirst
      else if matches_dynamic_pattern (url request) then Some NetworkFirst
      else Some StaleWhileRevalidate)"

fun run_strategy :: "strategy \<Rightarrow> network \<Rightarrow> request \<Rightarrow> world \<Rightarrow> response option promise \<times> world" where
  "run_strategy CacheFirst = cacheFirstStrategy"
| "run_strategy NetworkFirst = networkFirstStrategy"
| "run_strategy StaleWhileRevalidate = staleWhileRevalidateStrategy"

subsection \<open>Example inputs\<close>

text \<open>
  A host at \<^verbatim>\<open>https://techkkim.example\<close>. Its URL parser is kept simple: the origin of an
  absolute URL is its text before the third slash, and a URL that starts with a slash is
  resolved against the host's origin.
\<close>

fun upto_slash :: "nat \<Rightarrow> string \<Rightarrow> string" where
  "upto_slash n [] = []"
| "upto_slash n (c # cs) =
     (if c = CHR ''/'' then (case n of 0 \<Rightarrow> [] | Suc m \<Rightarrow> c # upto_slash m cs)
      else c # upto_slash n cs)"

definition example_host :: host where
  "example_host =
     \<lparr>location_origin = ''https://techkkim.example'',
      url_origin = upto_slash 2,
      resolve_url = (\<lambda>u. if prefix ''/'' u then ''https://techkkim.example'' @ u else u)\<rparr>"

definition get_request :: "string \<Rightarrow> string \<Rightarrow> request" where
  "get_request u d = \<lparr>rmethod = ''GET'', url = u, destination = d, rheaders = [], rbody = []\<rparr>"

definition text_response :: "nat \<Rightarrow> string \<Rightarrow> response" where
  "text_response code txt = \<lparr>status = code, statusText = [], headers = [], body = txt\<rparr>"

definition empty_world :: world where
  "empty_world = \<lparr>caches = [], fetch_log = [], skip_waiting = False, clients = [1, 2], posted = []\<rparr>"

text \<open>A request for a feed on another origin, and worlds that hold an old copy of it.\<close>

definition feed_request :: request where
  "feed_request = get_request ''https://news.example/feed'' []"

definition stale_in_dynamic :: world where
  "stale_in_dynamic =
     empty_world\<lparr>caches := [(STATIC_CACHE, []),
                             (DYNAMIC_CACHE, [(''https://news.example/feed'', text_response 200 ''old'')])]\<rparr>"

definition stale_in_static :: world where
  "stale_in_static =
     empty_world\<lparr>caches := [(STATIC_CACHE, [(''https://news.example/feed'', text_response 200 ''old'')]),
                             (DYNAMIC_CACHE, [])]\<rparr>"

text \<open>A world in which only the cache of an earlier version holds the copy.\<close>

definition OLD_CACHE :: string where
  "OLD_CACHE = ''techkkim-static-v0.9''"

definition stale_in_old_cache :: world where
  "stale_in_old_cache =
     empty_world\<lparr>caches := [(STATIC_CACHE, []), (DYNAMIC_CACHE, []),
                             (OLD_CACHE, [(''https://news.example/feed'', text_response 200 ''old'')])]\<rparr>"

text \<open>Networks: down, answering every request with a fresh copy, or with a given status.\<close>

definition net_down :: network where
  "net_down n r = NetFail"

definition net_answers :: "nat \<Rightarrow> network" where
  "net_answers code n r = NetResp (text_response code ''fresh'')"

definition net_hangs :: network where
  "net_hangs n r = NetHang"

text \<open>A network on which one asset of the install list cannot be fetched.\<close>

definition net_cdn_down :: network where
  "net_cdn_down n r =
     (if url r = ''https://cdn.tailwindcss.com'' then NetFail
      else NetResp (text_response 200 ''asset''))"

text \<open>A network on which the second fetch of a run fails.\<close>

definition net_second_fails :: network where
  "net_second_fails n r = (if n = 1 then NetFail else NetResp (text_response 200 ''ok''))"

text \<open>A network on which the second fetch of a run is answered with status 500.\<close>

definition net_second_500 :: network where
  "net_second_500 n r = NetResp (text_response (if n = 1 then 500 else 200) ''answer'')"

subsection \<open>Outcomes of the fetches of a run\<close>

text \<open>
  The outcomes the network gives to a list of requests sent one after the other, the
  first of them as fetch number \<open>n\<close>.
\<close>

fun outcomes :: "network \<Rightarrow> nat \<Rightarrow> request list \<Rightarrow> net_outcome list" where
  "outcomes net n [] = []"
| "outcomes net n (r # rs) = net n r # outcomes net (Suc n) rs"

text \<open>The outcome of fetching the \<open>i\<close>-th entry of \<open>STATIC_ASSETS\<close> during install.\<close>

definition asset_outcome :: "host \<Rightarrow> network \<Rightarrow> world \<Rightarrow> nat \<Rightarrow> net_outcome" where
  "asset_outcome h net w i =
     net (length (fetch_log w) + i) (Request h (STATIC_ASSETS ! i))"

text \<open>
  The POST requests for a list of pending items, and the outcome of the POST for the
  \<open>i\<close>-th item when the items before it have been sent.
\<close>

definition posts :: "host \<Rightarrow> string \<Rightarrow> item list \<Rightarrow> request list" where
  "posts h endpoint items = map (\<lambda>x. post_request h endpoint (JSON_stringify x)) items"

definition post_outcome :: "host \<Rightarrow> network \<Rightarrow> string \<Rightarrow> item list \<Rightarrow> world \<Rightarrow> nat \<Rightarrow> net_outcome" where
  "post_outcome h net endpoint items w i =
     net (length (fetch_log w) + i) (post_request h endpoint (JSON_stringify (items ! i)))"

section \<open>Properties\<close>

subsection \<open>String search\<close>

lemma js_includes_sublist: "js_includes s t \<longleftrightarrow> sublist t s"
  by (induction s) (simp_all add: sublist_Cons_right)

lemma regex_test_suffixes: "regex_test r s \<longleftrightarrow> (\<exists>t. suffix t s \<and> match_here r t)"
proof (induction s)
  case Nil
  then show ?case by simp
next
  case (Cons c cs)
  then show ?case by (auto simp: suffix_Cons)
qed

lemma regex_test_literal: "regex_test [[Lit l]] s \<longleftrightarrow> sublist l s"
  by (simp add: regex_test_suffixes match_here_def sublist_altdef')

lemma match_seq_literal_at_end: "match_seq [Lit l, Eoi] t \<longleftrightarrow> t = l"
  by (auto simp: prefix_def)

lemma regex_test_extensions:
  "regex_test [[Lit a, Eoi], [Lit b, Eoi], [Lit c, Eoi], [Lit d, Eoi]] s \<longleftrightarrow>
     suffix a s \<or> suffix b s \<or> suffix c s \<or> suffix d s"
  by (auto simp: regex_test_suffixes match_here_def match_seq_literal_at_end
      simp del: match_seq.simps)

lemma static_asset_test:
  "list_ex (\<lambda>asset. js_includes u asset) STATIC_ASSETS \<longleftrightarrow> matches_static_asset u"
  by (simp add: list_ex_iff js_includes_sublist matches_static_asset_def)

lemma dynamic_pattern_test:
  "list_ex (\<lambda>pattern. regex_test pattern u) DYNAMIC_PATTERNS \<longleftrightarrow> matches_dynamic_pattern u"
  unfolding DYNAMIC_PATTERNS_def matches_dynamic_pattern_def
  by (simp only: list_ex_Cons_iff list_ex_Nil_iff regex_test_literal regex_test_extensions) blast

text \<open>
  The first entry of \<open>STATIC_ASSETS\<close> is the one-character text \<^verbatim>\<open>/\<close>, so every URL with
  a slash in it matches the list: the router sends each such \<^verbatim>\<open>GET\<close> request to
  cache-first, and its last two branches are taken for URLs without a slash only.
\<close>

lemma slash_is_static_asset: "CHR ''/'' \<in> set u \<Longrightarrow> matches_static_asset u"
proof -
  assume "CHR ''/'' \<in> set u"
  then obtain ps ss where "u = ps @ ''/'' @ ss"
    by (auto simp: in_set_conv_decomp)
  then have "sublist ''/'' u"
    unfolding sublist_def by blast
  then show ?thesis
    by (auto simp: matches_static_asset_def STATIC_ASSETS_def)
qed

subsection \<open>The cache store\<close>

lemma static_dynamic_distinct: "STATIC_CACHE \<noteq> DYNAMIC_CACHE"
  by (simp add: STATIC_CACHE_def DYNAMIC_CACHE_def)

lemma cache_match_put_same:
  "rmethod req = ''GET'' \<Longrightarrow> cache_match req (cache_put req resp c) = Some resp"
proof -
  assume get: "rmethod req = ''GET''"
  have "map_of (filter (\<lambda>e. fst e \<noteq> url req) c) (url req) = None"
    by (induction c) auto
  then show ?thesis
    using get by (simp add: cache_match_def cache_put_def map_add_def)
qed

lemma map_of_put_in:
  "map_of (put_in name req resp cs) n =
     (if n = name then map_option (cache_put req resp) (map_of cs n) else map_of cs n)"
  by (induction cs) auto

lemma region_put_in_same:
  "name \<in> fst ` set cs \<Longrightarrow>
     region name (put_in name req resp cs) = cache_put req resp (region name cs)"
proof -
  assume "name \<in> fst ` set cs"
  then obtain c where "map_of cs name = Some c"
    by (metis map_of_eq_None_iff not_None_eq)
  then show ?thesis
    by (simp add: region_def map_of_put_in)
qed

lemma region_put_in_other:
  "n \<noteq> name \<Longrightarrow> region n (put_in name req resp cs) = region n cs"
  by (simp add: region_def map_of_put_in)

lemma region_caches_open: "region n (caches_open name cs) = region n cs"
proof (cases "name \<in> fst ` set cs")
  case True
  then show ?thesis by (simp add: caches_open_def)
next
  case False
  then have "map_of cs name = None"
    by (simp add: map_of_eq_None_iff)
  then show ?thesis
    using False by (auto simp: region_def caches_open_def map_add_def split: option.splits)
qed

lemma name_in_caches_open: "name \<in> fst ` set (caches_open name cs)"
  by (simp add: caches_open_def)

lemma region_after_put:
  "region n (put_in name req resp (caches_open name cs)) =
     (if n = name then cache_put req resp (region name cs) else region n cs)"
  by (simp add: region_put_in_same region_put_in_other name_in_caches_open region_caches_open)

subsection \<open>The router\<close>

text \<open>
  C2. The fetch listener does what the specification's router says: it leaves a request
  that is not a \<^verbatim>\<open>GET\<close> alone, and hands a \<^verbatim>\<open>GET\<close> request to the one strategy named by
  the first rule that applies: same origin, then a static asset occurring in the URL
  (both cache-first), then a dynamic pattern (network-first: \<^verbatim>\<open>/api/\<close>, \<^verbatim>\<open>/monastery/\<close>
  or \<^verbatim>\<open>/archives/\<close> occurring in the URL, or the URL ending in \<^verbatim>\<open>.jpg\<close>, \<^verbatim>\<open>.png\<close>,
  \<^verbatim>\<open>.webp\<close> or \<^verbatim>\<open>.gif\<close>, in this letter case), otherwise stale-while-revalidate.
\<close>

theorem fetch_listener_dispatch:
  "fetch_listener h net request w =
     (case spec_route h request of
        None \<Rightarrow> (None, w)
      | Some s \<Rightarrow> respondWith (run_strategy s net request w))"
  by (simp add: fetch_listener_def spec_route_def static_asset_test dynamic_pattern_test)

theorem fetch_listener_dispatch_witness:
  "fetch_listener example_host net_down (feed_request\<lparr>rmethod := ''POST''\<rparr>) empty_world
     = (None, empty_world) \<and>
   fetch_listener example_host net_down (get_request ''https://techkkim.example/map'' []) empty_world
     = respondWith (cacheFirstStrategy net_down (get_request ''https://techkkim.example/map'' []) empty_world) \<and>
   fetch_listener example_host net_down (get_request ''https://cdn.tailwindcss.com'' []) empty_world
     = respondWith (cacheFirstStrategy net_down (get_request ''https://cdn.tailwindcss.com'' []) empty_world) \<and>
   fetch_listener example_host net_down (get_request ''photo.PNG'' []) empty_world
     = respondWith (staleWhileRevalidateStrategy net_down (get_request ''photo.PNG'' []) empty_world) \<and>
   fetch_listener example_host net_down (get_request ''photo.png'' []) empty_world
     = respondWith (networkFirstStrategy net_down (get_request ''photo.png'' []) empty_world)"
proof -
  have r1: "spec_route example_host (feed_request\<lparr>rmethod := ''POST''\<rparr>) = None"
    by (simp add: spec_route_def)
  have r2: "spec_route example_host (get_request ''https://techkkim.example/map'' []) = Some CacheFirst"
    by (simp add: spec_route_def get_request_def example_host_def)
  have r3: "spec_route example_host (get_request ''https://cdn.tailwindcss.com'' []) = Some CacheFirst"
    by (simp add: spec_route_def get_request_def example_host_def matches_static_asset_def
        STATIC_ASSETS_def sublist_code)
  have r4: "spec_route example_host (get_request ''photo.PNG'' []) = Some StaleWhileRevalidate"
    by (simp add: spec_route_def get_request_def example_host_def matches_static_asset_def
        matches_dynamic_pattern_def STATIC_ASSETS_def sublist_code suffix_to_prefix)
  have r5: "spec_route example_host (get_request ''photo.png'' []) = Some NetworkFirst"
    by (simp add: spec_route_def get_request_def example_host_def matches_static_asset_def
        matches_dynamic_pattern_def STATIC_ASSETS_def sublist_code suffix_to_prefix)
  show ?thesis
    by (simp add: fetch_listener_dispatch r1 r2 r3 r4 r5)
qed

subsection \<open>The offline fallback\<close>

lemma offline_html_doctype: "prefix (CHR 0x0A # ''      <!DOCTYPE html>'') OFFLINE_HTML"
  unfolding OFFLINE_HTML_def
  by (simp only: unlines.simps append_Nil Cons_prefix_Cons prefix_order.refl prefixI simp_thms)

lemma offline_svg_canvas:
  \<open>prefix (CHR 0x0A # ''      <svg width="400" height="300" xmlns="http://www.w3.org/2000/svg">'')
     OFFLINE_SVG\<close>
  unfolding OFFLINE_SVG_def
  by (simp only: unlines.simps append_Nil Cons_prefix_Cons prefix_order.refl prefixI simp_thms)

lemma unlines_suffix_drop: "n < length ls \<Longrightarrow> suffix (unlines (drop n ls)) (unlines ls)"
proof (induction ls arbitrary: n rule: unlines.induct)
  case 1
  then show ?case by simp
next
  case (2 l)
  then show ?case by simp
next
  case (3 l m ls)
  show ?case
  proof (cases n)
    case 0
    then show ?thesis by simp
  next
    case (Suc k)
    with 3 have "suffix (unlines (drop k (m # ls))) (unlines (m # ls))"
      by simp
    then have "suffix (unlines (drop k (m # ls))) (l @ CHR 0x0A # unlines (m # ls))"
      by (meson suffix_ConsI suffix_appendI)
    with Suc show ?thesis by simp
  qed
qed

lemma offline_html_closing: "suffix (''      </html>'' @ CHR 0x0A # ''    '') OFFLINE_HTML"
  unfolding OFFLINE_HTML_def
  by (rule suffix_order.trans [OF _ unlines_suffix_drop [where n = 57]]) simp_all

lemma offline_svg_closing: "suffix (''      </svg>'' @ CHR 0x0A # ''    '') OFFLINE_SVG"
  unfolding OFFLINE_SVG_def
  by (rule suffix_order.trans [OF _ unlines_suffix_drop [where n = 12]]) simp_all

lemma length_unlines:
  "length (unlines ls) = sum_list (map length ls) + (length ls - 1)"
  by (induction ls rule: unlines.induct) simp_all

lemma offline_svg_length: "length OFFLINE_SVG = 591"
  unfolding OFFLINE_SVG_def by (simp add: length_unlines)

lemma offline_html_length: "length OFFLINE_HTML = 2029"
  unfolding OFFLINE_HTML_def by (simp add: length_unlines)

text \<open>
  C3. For a request whose destination is \<^verbatim>\<open>document\<close> the fallback is the response with
  status 200, content type \<^verbatim>\<open>text/html\<close> and the whole HTML page of the script as its
  body: 2029 bytes, from the doctype line to the closing \<^verbatim>\<open></html>\<close>. For the destination
  \<^verbatim>\<open>image\<close> it is the response with status 200, content type \<^verbatim>\<open>image/svg+xml\<close> and the
  whole SVG placeholder as its body: 591 bytes, from the start tag of a 400 by 300
  canvas to the closing \<^verbatim>\<open></svg>\<close>. For every other destination it is the response with
  status 503 and the one-line text body.
\<close>

theorem getOfflineFallback_by_destination:
  \<open>(destination request = ''document'' \<longrightarrow>
      status (getOfflineFallback request) = 200 \<and>
      statusText (getOfflineFallback request) = ''OK'' \<and>
      headers (getOfflineFallback request) = [(''Content-Type'', ''text/html'')] \<and>
      map_of (headers (getOfflineFallback request)) ''Content-Type'' = Some ''text/html'' \<and>
      body (getOfflineFallback request) = OFFLINE_HTML \<and>
      length (body (getOfflineFallback request)) = 2029 \<and>
      prefix (CHR 0x0A # ''      <!DOCTYPE html>'') (body (getOfflineFallback request)) \<and>
      suffix (''      </html>'' @ CHR 0x0A # ''    '') (body (getOfflineFallback request))) \<and>
   (destination request = ''image'' \<longrightarrow>
      status (getOfflineFallback request) = 200 \<and>
      statusText (getOfflineFallback request) = ''OK'' \<and>
      headers (getOfflineFallback request) = [(''Content-Type'', ''image/svg+xml'')] \<and>
      map_of (headers (getOfflineFallback request)) ''Content-Type'' = Some ''image/svg+xml'' \<and>
      body (getOfflineFallback request) = OFFLINE_SVG \<and>
      length (body (getOfflineFallback request)) = 591 \<and>
      prefix (CHR 0x0A # ''      <svg width="400" height="300" xmlns="http://www.w3.org/2000/svg">'')
        (body (getOfflineFallback request)) \<and>
      suffix (''      </svg>'' @ CHR 0x0A # ''    '') (body (getOfflineFallback request))) \<and>
   (destination request \<noteq> ''document'' \<and> destination request \<noteq> ''image'' \<longrightarrow>
      status (getOfflineFallback request) = 503 \<and>
      statusText (getOfflineFallback request) = ''Service Unavailable'' \<and>
      headers (getOfflineFallback request) = [] \<and>
      body (getOfflineFallback request) = ''Offline - Content not available'')\<close>
proof -
  have page: "destination request = ''document'' \<Longrightarrow>
      getOfflineFallback request
        = \<lparr>status = 200, statusText = ''OK'',
           headers = [(''Content-Type'', ''text/html'')], body = OFFLINE_HTML\<rparr>"
    by (simp add: getOfflineFallback_def)
  have image: "destination request = ''image'' \<Longrightarrow>
      getOfflineFallback request
        = \<lparr>status = 200, statusText = ''OK'',
           headers = [(''Content-Type'', ''image/svg+xml'')], body = OFFLINE_SVG\<rparr>"
    by (simp add: getOfflineFallback_def)
  have other: "destination request \<noteq> ''document'' \<and> destination request \<noteq> ''image'' \<Longrightarrow>
      getOfflineFallback request
        = \<lparr>status = 503, statusText = ''Service Unavailable'',
           headers = [], body = ''Offline - Content not available''\<rparr>"
    by (simp add: getOfflineFallback_def)
  show ?thesis
    apply (intro conjI impI)
    apply (simp_all only: page image other response.simps map_of.simps fun_upd_same fst_conv
        snd_conv offline_html_doctype offline_html_closing offline_html_length
        offline_svg_canvas offline_svg_closing offline_svg_length)
    apply (simp_all add: other)
    done
qed

theorem getOfflineFallback_by_destination_witness:
  "status (getOfflineFallback (get_request ''https://techkkim.example/'' ''document'')) = 200 \<and>
   map_of (headers (getOfflineFallback (get_request ''https://techkkim.example/'' ''document'')))
     ''Content-Type'' = Some ''text/html'' \<and>
   body (getOfflineFallback (get_request ''https://techkkim.example/'' ''document'')) = OFFLINE_HTML \<and>
   status (getOfflineFallback (get_request ''https://techkkim.example/a.png'' ''image'')) = 200 \<and>
   map_of (headers (getOfflineFallback (get_request ''https://techkkim.example/a.png'' ''image'')))
     ''Content-Type'' = Some ''image/svg+xml'' \<and>
   body (getOfflineFallback (get_request ''https://techkkim.example/a.png'' ''image'')) = OFFLINE_SVG \<and>
   status (getOfflineFallback (get_request ''https://techkkim.example/a.js'' ''script'')) = 503 \<and>
   body (getOfflineFallback (get_request ''https://techkkim.example/a.js'' ''script''))
     = ''Offline - Content not available''"
proof -
  have d: "destination (get_request ''https://techkkim.example/'' ''document'') = ''document''"
    and i: "destination (get_request ''https://techkkim.example/a.png'' ''image'') = ''image''"
    and s: "destination (get_request ''https://techkkim.example/a.js'' ''script'') \<noteq> ''document'' \<and>
            destination (get_request ''https://techkkim.example/a.js'' ''script'') \<noteq> ''image''"
    by (simp_all add: get_request_def)
  show ?thesis
    using getOfflineFallback_by_destination [of "get_request ''https://techkkim.example/'' ''document''"]
      getOfflineFallback_by_destination [of "get_request ''https://techkkim.example/a.png'' ''image''"]
      getOfflineFallback_by_destination [of "get_request ''https://techkkim.example/a.js'' ''script''"]
      d i s
    by blast
qed

subsection \<open>Network-first\<close>

text \<open>
  C6. When the fetch of network-first fails, the strategy returns the cached entry that
  \<^verbatim>\<open>caches.match\<close> finds for the request, unchanged, and the offline fallback for the
  request when there is none.
\<close>

theorem networkFirst_network_failure:
  assumes "net (length (fetch_log w)) request = NetFail"
  shows "(\<forall>c. caches_match request (caches w) = Some c \<longrightarrow>
            fst (networkFirstStrategy net request w) = Fulfilled (Some c)) \<and>
         (caches_match request (caches w) = None \<longrightarrow>
            fst (networkFirstStrategy net request w) = Fulfilled (Some (getOfflineFallback request)))"
  using assms by (simp add: networkFirstStrategy_def fetch_def)

theorem networkFirst_network_failure_witness:
  "fst (networkFirstStrategy net_down feed_request stale_in_dynamic)
     = Fulfilled (Some (text_response 200 ''old'')) \<and>
   fst (networkFirstStrategy net_down feed_request empty_world)
     = Fulfilled (Some (getOfflineFallback feed_request))"
proof -
  have down: "net_down (length (fetch_log w)) feed_request = NetFail" for w
    by (simp add: net_down_def)
  have hit: "caches_match feed_request (caches stale_in_dynamic) = Some (text_response 200 ''old'')"
    by (simp add: stale_in_dynamic_def feed_request_def get_request_def cache_match_def)
  have miss: "caches_match feed_request (caches empty_world) = None"
    by (simp add: empty_world_def)
  show ?thesis
    using networkFirst_network_failure
        [where net = net_down and request = feed_request and w = stale_in_dynamic, OF down]
      networkFirst_network_failure
        [where net = net_down and request = feed_request and w = empty_world, OF down]
      hit miss
    by blast
qed

subsection \<open>Stale-while-revalidate\<close>

text \<open>
  C7. When the dynamic cache holds a match for the request, stale-while-revalidate is
  fulfilled with that match whatever the network does, also when the fetch it has
  started answers with a fresher response, fails or never settles.
\<close>

theorem staleWhileRevalidate_returns_cached:
  assumes "cache_match request (region DYNAMIC_CACHE (caches w)) = Some c"
  shows "fst (staleWhileRevalidateStrategy net request w) = Fulfilled (Some c) \<and>
         fetch_log (snd (staleWhileRevalidateStrategy net request w)) = fetch_log w @ [request]"
  using assms
  by (simp add: staleWhileRevalidateStrategy_def Let_def region_caches_open fetch_def
      split: net_outcome.split prod.split)

theorem staleWhileRevalidate_returns_cached_witness:
  "fst (staleWhileRevalidateStrategy (net_answers 200) feed_request stale_in_dynamic)
     = Fulfilled (Some (text_response 200 ''old'')) \<and>
   fst (staleWhileRevalidateStrategy net_hangs feed_request stale_in_dynamic)
     = Fulfilled (Some (text_response 200 ''old'')) \<and>
   net_answers 200 0 feed_request = NetResp (text_response 200 ''fresh'')"
proof -
  have hit: "cache_match feed_request (region DYNAMIC_CACHE (caches stale_in_dynamic))
      = Some (text_response 200 ''old'')"
    by (simp add: stale_in_dynamic_def feed_request_def get_request_def cache_match_def
        region_def STATIC_CACHE_def DYNAMIC_CACHE_def)
  show ?thesis
    using staleWhileRevalidate_returns_cached [OF hit, where net = "net_answers 200"]
      staleWhileRevalidate_returns_cached [OF hit, where net = net_hangs]
    by (simp add: net_answers_def)
qed

subsection \<open>Which caches the strategies read and write\<close>

lemma caches_match_first:
  "\<forall>(n', c') \<in> set pre. cache_match req c' = None \<Longrightarrow> cache_match req c = Some r \<Longrightarrow>
   caches_match req (pre @ (n, c) # post) = Some r"
  by (induction pre) auto

lemma staleWhileRevalidate_result:
  "fst (staleWhileRevalidateStrategy net request w) =
     (case cache_match request (region DYNAMIC_CACHE (caches w)) of
        Some c \<Rightarrow> Fulfilled (Some c)
      | None \<Rightarrow>
          (case net (length (fetch_log w)) request of
             NetResp fresh \<Rightarrow> Fulfilled (Some fresh)
           | NetFail \<Rightarrow> Fulfilled None
           | NetHang \<Rightarrow> Pending))"
  by (simp add: staleWhileRevalidateStrategy_def Let_def region_caches_open fetch_def
      split: net_outcome.split option.split prod.split)

lemma staleWhileRevalidate_regions:
  "region name (caches (snd (staleWhileRevalidateStrategy net request w))) =
     (case net (length (fetch_log w)) request of
        NetResp fresh \<Rightarrow>
          if name = DYNAMIC_CACHE \<and> status fresh = 200
          then cache_put request fresh (region name (caches w))
          else region name (caches w)
      | NetFail \<Rightarrow> region name (caches w)
      | NetHang \<Rightarrow> region name (caches w))"
  by (simp add: staleWhileRevalidateStrategy_def Let_def fetch_def region_after_put
      region_caches_open split: net_outcome.split option.split prod.split)

text \<open>
  C10. Stale-while-revalidate reads and writes the dynamic cache only. What it returns
  is the match of the dynamic cache when there is one, and is otherwise decided by the
  network alone (the fresh response, \<^verbatim>\<open>undefined\<close> when the fetch fails, nothing while the
  fetch hangs): an entry held by the static cache, or by any other cache, is never
  returned. Afterwards every cache other than the dynamic one holds what it held before,
  and the dynamic one has changed only by the stored response of status 200. Cache-first
  and network-first ask \<^verbatim>\<open>caches.match\<close>, which looks through all caches in creation
  order: when some cache, of whatever name, holds a match and no cache before it does,
  cache-first returns that match, and so does network-first when its fetch fails.
\<close>

theorem strategies_cache_regions:
  "fst (staleWhileRevalidateStrategy net request w) =
     (case cache_match request (region DYNAMIC_CACHE (caches w)) of
        Some c \<Rightarrow> Fulfilled (Some c)
      | None \<Rightarrow>
          (case net (length (fetch_log w)) request of
             NetResp fresh \<Rightarrow> Fulfilled (Some fresh)
           | NetFail \<Rightarrow> Fulfilled None
           | NetHang \<Rightarrow> Pending)) \<and>
   (\<forall>name. region name (caches (snd (staleWhileRevalidateStrategy net request w))) =
      (case net (length (fetch_log w)) request of
         NetResp fresh \<Rightarrow>
           if name = DYNAMIC_CACHE \<and> status fresh = 200
           then cache_put request fresh (region name (caches w))
           else region name (caches w)
       | NetFail \<Rightarrow> region name (caches w)
       | NetHang \<Rightarrow> region name (caches w))) \<and>
   (\<forall>pre n c post r.
      caches w = pre @ (n, c) # post \<and>
      (\<forall>(n', c') \<in> set pre. cache_match request c' = None) \<and>
      cache_match request c = Some r \<longrightarrow>
      fst (cacheFirstStrategy net request w) = Fulfilled (Some r) \<and>
      (net (length (fetch_log w)) request = NetFail \<longrightarrow>
         fst (networkFirstStrategy net request w) = Fulfilled (Some r)))"
proof -
  have across: "fst (cacheFirstStrategy net request w) = Fulfilled (Some r) \<and>
      (net (length (fetch_log w)) request = NetFail \<longrightarrow>
         fst (networkFirstStrategy net request w) = Fulfilled (Some r))"
    if "caches w = pre @ (n, c) # post"
      and "\<forall>(n', c') \<in> set pre. cache_match request c' = None"
      and "cache_match request c = Some r"
    for pre n c post r
  proof -
    have "caches_match request (caches w) = Some r"
      using caches_match_first [OF that(2) that(3)] that(1) by simp
    then show ?thesis
      by (simp add: cacheFirstStrategy_def networkFirstStrategy_def fetch_def)
  qed
  show ?thesis
    apply (rule conjI [OF staleWhileRevalidate_result])
    apply (rule conjI)
     apply (rule allI, rule staleWhileRevalidate_regions)
    apply (intro allI impI)
    apply (elim conjE)
    apply (erule (2) across)
    done
qed

theorem strategies_cache_regions_witness:
  "fst (cacheFirstStrategy net_down feed_request stale_in_static)
     = Fulfilled (Some (text_response 200 ''old'')) \<and>
   fst (networkFirstStrategy net_down feed_request stale_in_static)
     = Fulfilled (Some (text_response 200 ''old'')) \<and>
   fst (staleWhileRevalidateStrategy net_down feed_request stale_in_static) = Fulfilled None \<and>
   fst (cacheFirstStrategy net_down feed_request stale_in_dynamic)
     = Fulfilled (Some (text_response 200 ''old'')) \<and>
   fst (networkFirstStrategy net_down feed_request stale_in_dynamic)
     = Fulfilled (Some (text_response 200 ''old'')) \<and>
   fst (staleWhileRevalidateStrategy net_down feed_request stale_in_dynamic)
     = Fulfilled (Some (text_response 200 ''old'')) \<and>
   fst (cacheFirstStrategy net_down feed_request stale_in_old_cache)
     = Fulfilled (Some (text_response 200 ''old'')) \<and>
   fst (networkFirstStrategy net_down feed_request stale_in_old_cache)
     = Fulfilled (Some (text_response 200 ''old'')) \<and>
   fst (staleWhileRevalidateStrategy (net_answers 200) feed_request stale_in_old_cache)
     = Fulfilled (Some (text_response 200 ''fresh'')) \<and>
   region OLD_CACHE
     (caches (snd (staleWhileRevalidateStrategy (net_answers 200) feed_request stale_in_old_cache)))
     = [(''https://news.example/feed'', text_response 200 ''old'')] \<and>
   region STATIC_CACHE
     (caches (snd (staleWhileRevalidateStrategy (net_answers 200) feed_request stale_in_old_cache)))
     = [] \<and>
   region DYNAMIC_CACHE
     (caches (snd (staleWhileRevalidateStrategy (net_answers 200) feed_request stale_in_old_cache)))
     = [(''https://news.example/feed'', text_response 200 ''fresh'')]"
proof -
  let ?old = "text_response 200 ''old''"
  let ?entry = "[(''https://news.example/feed'', ?old)]"
  have down: "net_down (length (fetch_log w)) feed_request = NetFail" for w
    by (simp add: net_down_def)
  have up: "net_answers 200 (length (fetch_log w)) feed_request
      = NetResp (text_response 200 ''fresh'')" for w
    by (simp add: net_answers_def)
  have hit: "cache_match feed_request ?entry = Some ?old"
    by (simp add: cache_match_def feed_request_def get_request_def)
  have miss: "cache_match feed_request [] = None"
    by (simp add: cache_match_def)
  have names: "STATIC_CACHE \<noteq> DYNAMIC_CACHE" "OLD_CACHE \<noteq> DYNAMIC_CACHE" "OLD_CACHE \<noteq> STATIC_CACHE"
    by (simp_all add: STATIC_CACHE_def DYNAMIC_CACHE_def OLD_CACHE_def)
  have s: "caches stale_in_static = [] @ (STATIC_CACHE, ?entry) # [(DYNAMIC_CACHE, [])]"
    by (simp add: stale_in_static_def empty_world_def)
  have d: "caches stale_in_dynamic = [(STATIC_CACHE, [])] @ (DYNAMIC_CACHE, ?entry) # []"
    by (simp add: stale_in_dynamic_def empty_world_def)
  have o: "caches stale_in_old_cache
      = [(STATIC_CACHE, []), (DYNAMIC_CACHE, [])] @ (OLD_CACHE, ?entry) # []"
    by (simp add: stale_in_old_cache_def empty_world_def)
  note in_static = strategies_cache_regions
    [where net = net_down and request = feed_request and w = stale_in_static]
  note in_dynamic = strategies_cache_regions
    [where net = net_down and request = feed_request and w = stale_in_dynamic]
  note in_old = strategies_cache_regions
    [where net = net_down and request = feed_request and w = stale_in_old_cache]
  note in_old_up = strategies_cache_regions
    [where net = "net_answers 200" and request = feed_request and w = stale_in_old_cache]
  have s1: "fst (cacheFirstStrategy net_down feed_request stale_in_static) = Fulfilled (Some ?old) \<and>
      fst (networkFirstStrategy net_down feed_request stale_in_static) = Fulfilled (Some ?old)"
  proof -
    have none: "\<forall>(n', c') \<in> set []. cache_match feed_request c' = None"
      using miss by simp
    from in_static [THEN conjunct2, THEN conjunct2, THEN spec, THEN spec, THEN spec, THEN spec,
        THEN spec, THEN mp, OF conjI [OF s conjI [OF none hit]]] down [of stale_in_static]
    show ?thesis by blast
  qed
  have d1: "fst (cacheFirstStrategy net_down feed_request stale_in_dynamic) = Fulfilled (Some ?old) \<and>
      fst (networkFirstStrategy net_down feed_request stale_in_dynamic) = Fulfilled (Some ?old)"
  proof -
    have none: "\<forall>(n', c') \<in> set [(STATIC_CACHE, [])]. cache_match feed_request c' = None"
      using miss by simp
    from in_dynamic [THEN conjunct2, THEN conjunct2, THEN spec, THEN spec, THEN spec, THEN spec,
        THEN spec, THEN mp, OF conjI [OF d conjI [OF none hit]]] down [of stale_in_dynamic]
    show ?thesis by blast
  qed
  have o1: "fst (cacheFirstStrategy net_down feed_request stale_in_old_cache) = Fulfilled (Some ?old) \<and>
      fst (networkFirstStrategy net_down feed_request stale_in_old_cache) = Fulfilled (Some ?old)"
  proof -
    have none: "\<forall>(n', c') \<in> set [(STATIC_CACHE, []), (DYNAMIC_CACHE, [])]. cache_match feed_request c' = None"
      using miss by simp
    from in_old [THEN conjunct2, THEN conjunct2, THEN spec, THEN spec, THEN spec, THEN spec,
        THEN spec, THEN mp, OF conjI [OF o conjI [OF none hit]]] down [of stale_in_old_cache]
    show ?thesis by blast
  qed
  have s2: "fst (staleWhileRevalidateStrategy net_down feed_request stale_in_static) = Fulfilled None"
    using in_static [THEN conjunct1] names miss
    by (simp add: stale_in_static_def empty_world_def region_def net_down_def)
  have d2: "fst (staleWhileRevalidateStrategy net_down feed_request stale_in_dynamic)
      = Fulfilled (Some ?old)"
    using in_dynamic [THEN conjunct1] names hit
    by (simp add: stale_in_dynamic_def empty_world_def region_def)
  have o2: "fst (staleWhileRevalidateStrategy (net_answers 200) feed_request stale_in_old_cache)
      = Fulfilled (Some (text_response 200 ''fresh''))"
    using in_old_up [THEN conjunct1] names miss
    by (simp add: stale_in_old_cache_def empty_world_def region_def net_answers_def)
  have get: "rmethod feed_request = ''GET''" "url feed_request = ''https://news.example/feed''"
    by (simp_all add: feed_request_def get_request_def)
  have o3: "region name
      (caches (snd (staleWhileRevalidateStrategy (net_answers 200) feed_request stale_in_old_cache)))
      = (if name = DYNAMIC_CACHE
         then cache_put feed_request (text_response 200 ''fresh'') (region name (caches stale_in_old_cache))
         else region name (caches stale_in_old_cache))" for name
    using in_old_up [THEN conjunct2, THEN conjunct1, THEN spec, of name]
    by (simp add: net_answers_def text_response_def)
  have o4: "region OLD_CACHE
      (caches (snd (staleWhileRevalidateStrategy (net_answers 200) feed_request stale_in_old_cache)))
      = ?entry"
    using names by (simp add: o3) (simp add: stale_in_old_cache_def empty_world_def region_def)
  have o5: "region STATIC_CACHE
      (caches (snd (staleWhileRevalidateStrategy (net_answers 200) feed_request stale_in_old_cache)))
      = []"
    using names by (simp add: o3) (simp add: stale_in_old_cache_def empty_world_def region_def)
  have o6: "region DYNAMIC_CACHE
      (caches (snd (staleWhileRevalidateStrategy (net_answers 200) feed_request stale_in_old_cache)))
      = [(''https://news.example/feed'', text_response 200 ''fresh'')]"
    using names get
    by (simp add: o3) (simp add: stale_in_old_cache_def empty_world_def region_def cache_put_def)
  from s1 s2 d1 d2 o1 o2 o4 o5 o6 show ?thesis by simp
qed

subsection \<open>Which responses are stored\<close>

text \<open>
  C5, as the script has it. Each strategy stores the response of its fetch when the
  status is exactly 200, and only then. For a \<^verbatim>\<open>GET\<close> request whose fetch is answered by
  \<open>r\<close>: when the status of \<open>r\<close> is 200, the strategy's cache (the dynamic one for
  network-first and stale-while-revalidate, the static one for cache-first, which
  fetches on a cache miss only) afterwards matches the request with \<open>r\<close>, whatever it held
  before; when the status is anything else, every cache is left as it was.
\<close>

theorem strategies_store_status_200:
  assumes get: "rmethod request = ''GET''"
    and net: "net (length (fetch_log w)) request = NetResp r"
  shows "(status r = 200 \<longrightarrow>
            cache_match request
              (region DYNAMIC_CACHE (caches (snd (networkFirstStrategy net request w)))) = Some r \<and>
            cache_match request
              (region DYNAMIC_CACHE (caches (snd (staleWhileRevalidateStrategy net request w)))) = Some r \<and>
            (caches_match request (caches w) = None \<longrightarrow>
               cache_match request
                 (region STATIC_CACHE (caches (snd (cacheFirstStrategy net request w)))) = Some r)) \<and>
         (status r \<noteq> 200 \<longrightarrow>
            (\<forall>name. region name (caches (snd (networkFirstStrategy net request w)))
                      = region name (caches w) \<and>
                    region name (caches (snd (staleWhileRevalidateStrategy net request w)))
                      = region name (caches w) \<and>
                    region name (caches (snd (cacheFirstStrategy net request w)))
                      = region name (caches w)))"
proof (intro conjI impI allI)
  assume ok: "status r = 200"
  show "cache_match request
      (region DYNAMIC_CACHE (caches (snd (networkFirstStrategy net request w)))) = Some r"
    using get net ok
    by (simp add: networkFirstStrategy_def fetch_def region_after_put cache_match_put_same)
  show "cache_match request
      (region DYNAMIC_CACHE (caches (snd (staleWhileRevalidateStrategy net request w)))) = Some r"
    using get net ok
    by (simp add: staleWhileRevalidateStrategy_def Let_def fetch_def region_after_put
        cache_match_put_same split: option.split)
  show "cache_match request
      (region STATIC_CACHE (caches (snd (cacheFirstStrategy net request w)))) = Some r"
    if "caches_match request (caches w) = None"
    using get net ok that
    by (simp add: cacheFirstStrategy_def fetch_def region_after_put cache_match_put_same)
next
  fix name
  assume bad: "status r \<noteq> 200"
  show "region name (caches (snd (networkFirstStrategy net request w))) = region name (caches w)"
    using net bad by (simp add: networkFirstStrategy_def fetch_def)
  show "region name (caches (snd (staleWhileRevalidateStrategy net request w))) = region name (caches w)"
    using net bad
    by (simp add: staleWhileRevalidateStrategy_def Let_def fetch_def region_caches_open
        split: option.split)
  show "region name (caches (snd (cacheFirstStrategy net request w))) = region name (caches w)"
    using net bad by (simp add: cacheFirstStrategy_def fetch_def split: option.split)
qed

theorem strategies_store_status_200_witness:
  "cache_match feed_request
     (region DYNAMIC_CACHE
        (caches (snd (networkFirstStrategy (net_answers 200) feed_request stale_in_dynamic))))
     = Some (text_response 200 ''fresh'') \<and>
   cache_match feed_request
     (region DYNAMIC_CACHE
        (caches (snd (staleWhileRevalidateStrategy (net_answers 200) feed_request stale_in_dynamic))))
     = Some (text_response 200 ''fresh'') \<and>
   cache_match feed_request
     (region STATIC_CACHE
        (caches (snd (cacheFirstStrategy (net_answers 200) feed_request empty_world))))
     = Some (text_response 200 ''fresh'') \<and>
   region DYNAMIC_CACHE
     (caches (snd (networkFirstStrategy (net_answers 404) feed_request stale_in_dynamic)))
     = region DYNAMIC_CACHE (caches stale_in_dynamic)"
proof -
  have get: "rmethod feed_request = ''GET''"
    by (simp add: feed_request_def get_request_def)
  have ok: "net_answers 200 (length (fetch_log w)) feed_request
      = NetResp (text_response 200 ''fresh'')" for w
    by (simp add: net_answers_def)
  have missing: "net_answers 404 (length (fetch_log w)) feed_request
      = NetResp (text_response 404 ''fresh'')" for w
    by (simp add: net_answers_def)
  have miss: "caches_match feed_request (caches empty_world) = None"
    by (simp add: empty_world_def)
  have codes: "status (text_response 200 ''fresh'') = 200" "status (text_response 404 ''fresh'') \<noteq> 200"
    by (simp_all add: text_response_def)
  show ?thesis
    using strategies_store_status_200
        [where net = "net_answers 200" and w = stale_in_dynamic, OF get ok]
      strategies_store_status_200
        [where net = "net_answers 200" and w = empty_world, OF get ok]
      strategies_store_status_200
        [where net = "net_answers 404" and w = stale_in_dynamic, OF get missing]
      miss codes
    by simp
qed

text \<open>
  The specification's wording of C5, stored for every 2xx status, fails: a response with
  status 203 is a success, network-first returns it, and no cache holds anything
  afterwards.
\<close>

theorem status_203_not_stored:
  "fst (networkFirstStrategy (net_answers 203) feed_request empty_world)
     = Fulfilled (Some (text_response 203 ''fresh'')) \<and>
   200 \<le> status (text_response 203 ''fresh'') \<and> status (text_response 203 ''fresh'') \<le> 299 \<and>
   caches (snd (networkFirstStrategy (net_answers 203) feed_request empty_world)) = []"
  by (simp add: networkFirstStrategy_def fetch_def net_answers_def text_response_def empty_world_def)

subsection \<open>Whether a strategy answers with a response\<close>

lemma staleWhileRevalidate_miss_and_failure:
  "cache_match request (region DYNAMIC_CACHE (caches w)) = None \<Longrightarrow>
   net (length (fetch_log w)) request = NetFail \<Longrightarrow>
   fst (staleWhileRevalidateStrategy net request w) = Fulfilled None"
  by (simp add: staleWhileRevalidateStrategy_def Let_def region_caches_open fetch_def)

lemma cacheFirst_always_responds:
  "fst (cacheFirstStrategy net request w) = Pending \<or>
   (\<exists>r. fst (cacheFirstStrategy net request w) = Fulfilled (Some r))"
  by (simp add: cacheFirstStrategy_def split: option.split net_outcome.split prod.split)

lemma networkFirst_always_responds:
  "fst (networkFirstStrategy net request w) = Pending \<or>
   (\<exists>r. fst (networkFirstStrategy net request w) = Fulfilled (Some r))"
  by (simp add: networkFirstStrategy_def split: option.split net_outcome.split prod.split)

text \<open>
  A \<^verbatim>\<open>GET\<close> request with a slash in its URL is answered by cache-first, so the listener
  gives it a response unless the fetch hangs.
\<close>

lemma listener_answers_url_with_slash:
  assumes "rmethod request = ''GET''" and "CHR ''/'' \<in> set (url request)"
  shows "fetch_listener h net request w = respondWith (cacheFirstStrategy net request w)"
  using assms slash_is_static_asset [of "url request"]
  by (simp add: fetch_listener_def static_asset_test)

text \<open>
  C1 at the input where the script departs from it: the caches are empty, the network is
  down, and stale-while-revalidate is fulfilled with \<^verbatim>\<open>undefined\<close>, not with a response.
  Cache-first and network-first answer the same request with the offline fallback.
\<close>

theorem staleWhileRevalidate_resolves_undefined:
  "fst (staleWhileRevalidateStrategy net_down feed_request empty_world) = Fulfilled None \<and>
   fst (cacheFirstStrategy net_down feed_request empty_world)
     = Fulfilled (Some (getOfflineFallback feed_request)) \<and>
   fst (networkFirstStrategy net_down feed_request empty_world)
     = Fulfilled (Some (getOfflineFallback feed_request))"
  by (simp add: staleWhileRevalidateStrategy_def cacheFirstStrategy_def networkFirstStrategy_def
      Let_def fetch_def net_down_def empty_world_def caches_open_def region_def cache_match_def)

subsection \<open>Background sync\<close>

lemma post_outcome_Suc:
  "post_outcome h net endpoint xs (w\<lparr>fetch_log := fetch_log w @ [q]\<rparr>) i =
     post_outcome h net endpoint (x # xs) w (Suc i)"
  by (simp add: post_outcome_def)

lemma post_each_all_answered:
  "\<forall>i<length items. \<exists>r. post_outcome h net endpoint items w i = NetResp r \<Longrightarrow>
   post_each h net endpoint items w
     = (Fulfilled (), w\<lparr>fetch_log := fetch_log w @ posts h endpoint items\<rparr>)"
proof (induction items arbitrary: w)
  case Nil
  then show ?case by (simp add: posts_def)
next
  case (Cons x xs)
  let ?q = "post_request h endpoint (JSON_stringify x)"
  let ?w1 = "w\<lparr>fetch_log := fetch_log w @ [?q]\<rparr>"
  from Cons.prems obtain r where first: "net (length (fetch_log w)) ?q = NetResp r"
    by (force simp: post_outcome_def)
  have "\<forall>i<length xs. \<exists>r. post_outcome h net endpoint xs ?w1 i = NetResp r"
  proof (intro allI impI)
    fix i assume "i < length xs"
    then have "Suc i < length (x # xs)" by simp
    with Cons.prems have "\<exists>r. post_outcome h net endpoint (x # xs) w (Suc i) = NetResp r"
      by blast
    then show "\<exists>r. post_outcome h net endpoint xs ?w1 i = NetResp r"
      by (simp only: post_outcome_Suc [where x = x])
  qed
  then have "post_each h net endpoint xs ?w1
      = (Fulfilled (), ?w1\<lparr>fetch_log := fetch_log ?w1 @ posts h endpoint xs\<rparr>)"
    by (rule Cons.IH)
  with first show ?case
    by (simp add: fetch_def posts_def)
qed

lemma post_each_stops:
  "k < length items \<Longrightarrow>
   \<forall>i<k. \<exists>r. post_outcome h net endpoint items w i = NetResp r \<Longrightarrow>
   post_outcome h net endpoint items w k = out \<Longrightarrow> out = NetFail \<or> out = NetHang \<Longrightarrow>
   post_each h net endpoint items w
     = (if out = NetFail then Rejected else Pending,
        w\<lparr>fetch_log := fetch_log w @ posts h endpoint (take (Suc k) items)\<rparr>)"
proof (induction items arbitrary: w k)
  case Nil
  then show ?case by simp
next
  case (Cons x xs)
  let ?q = "post_request h endpoint (JSON_stringify x)"
  let ?w1 = "w\<lparr>fetch_log := fetch_log w @ [?q]\<rparr>"
  show ?case
  proof (cases k)
    case 0
    with Cons.prems have "net (length (fetch_log w)) ?q = out"
      by (simp add: post_outcome_def)
    with Cons.prems(4) 0 show ?thesis
      by (auto simp: fetch_def posts_def)
  next
    case (Suc k')
    with Cons.prems obtain r where first: "net (length (fetch_log w)) ?q = NetResp r"
      by (force simp: post_outcome_def)
    have before: "\<forall>i<k'. \<exists>r. post_outcome h net endpoint xs ?w1 i = NetResp r"
    proof (intro allI impI)
      fix i assume "i < k'"
      then have "Suc i < k" using Suc by simp
      with Cons.prems have "\<exists>r. post_outcome h net endpoint (x # xs) w (Suc i) = NetResp r"
        by blast
      then show "\<exists>r. post_outcome h net endpoint xs ?w1 i = NetResp r"
        by (simp only: post_outcome_Suc [where x = x])
    qed
    have at: "post_outcome h net endpoint xs ?w1 k' = out"
      using Cons.prems(3) Suc by (simp only: post_outcome_Suc [where x = x])
    have "k' < length xs" using Cons.prems(1) Suc by simp
    from Cons.IH [OF this before at Cons.prems(4)] first Suc show ?thesis
      by (simp add: fetch_def posts_def)
  qed
qed

lemma post_each_keeps_clients:
  "posted (snd (post_each h net endpoint items w)) = posted w \<and>
   clients (snd (post_each h net endpoint items w)) = clients w"
  by (induction items arbitrary: w) (auto simp: fetch_def split: net_outcome.split)

text \<open>
  C8, as the script has it. The items are sent in list order, each after the previous
  POST has been answered. When every POST is answered, with whatever status, the requests
  sent are the POSTs for all the items, in order; the sync function ends fulfilled, and
  \<open>syncMonasteryData\<close> notifies the clients with the number of items. When the POST for
  item \<open>k\<close> is the first that is not answered, the requests sent are the POSTs for the
  items up to \<open>k\<close>, in order, and no other: the items after \<open>k\<close> are not sent. If that
  POST fails (the fetch rejects), the sync function catches the failure and ends
  fulfilled, with no message posted; while that POST stays unanswered, the sync function
  stays pending.
\<close>

theorem deferred_sync_in_list_order:
  "((\<forall>i<length items. \<exists>r. post_outcome h net endpoint items w i = NetResp r) \<longrightarrow>
      post_each h net endpoint items w
        = (Fulfilled (), w\<lparr>fetch_log := fetch_log w @ posts h endpoint items\<rparr>) \<and>
      (endpoint = ''/api/monastery-visits'' \<longrightarrow>
         syncMonasteryData_from h net items w
           = (Fulfilled (),
              notify_clients (length items)
                (w\<lparr>fetch_log := fetch_log w @ posts h endpoint items\<rparr>))) \<and>
      (endpoint = ''/api/chat-messages'' \<longrightarrow>
         syncChatMessages_from h net items w
           = (Fulfilled (), w\<lparr>fetch_log := fetch_log w @ posts h endpoint items\<rparr>))) \<and>
   (\<forall>k out.
      k < length items \<and>
      (\<forall>i<k. \<exists>r. post_outcome h net endpoint items w i = NetResp r) \<and>
      post_outcome h net endpoint items w k = out \<and> (out = NetFail \<or> out = NetHang) \<longrightarrow>
      post_each h net endpoint items w
        = (if out = NetFail then Rejected else Pending,
           w\<lparr>fetch_log := fetch_log w @ posts h endpoint (take (Suc k) items)\<rparr>) \<and>
      (endpoint = ''/api/monastery-visits'' \<longrightarrow>
         syncMonasteryData_from h net items w
           = (if out = NetFail then Fulfilled () else Pending,
              w\<lparr>fetch_log := fetch_log w @ posts h endpoint (take (Suc k) items)\<rparr>)) \<and>
      (endpoint = ''/api/chat-messages'' \<longrightarrow>
         syncChatMessages_from h net items w
           = (if out = NetFail then Fulfilled () else Pending,
              w\<lparr>fetch_log := fetch_log w @ posts h endpoint (take (Suc k) items)\<rparr>)))"
proof -
  have all_sent: "post_each h net endpoint items w
        = (Fulfilled (), w\<lparr>fetch_log := fetch_log w @ posts h endpoint items\<rparr>) \<and>
      (endpoint = ''/api/monastery-visits'' \<longrightarrow>
         syncMonasteryData_from h net items w
           = (Fulfilled (),
              notify_clients (length items)
                (w\<lparr>fetch_log := fetch_log w @ posts h endpoint items\<rparr>))) \<and>
      (endpoint = ''/api/chat-messages'' \<longrightarrow>
         syncChatMessages_from h net items w
           = (Fulfilled (), w\<lparr>fetch_log := fetch_log w @ posts h endpoint items\<rparr>))"
    if "\<forall>i<length items. \<exists>r. post_outcome h net endpoint items w i = NetResp r"
    using post_each_all_answered [OF that]
    by (auto simp: syncMonasteryData_from_def syncChatMessages_from_def)
  have stopped: "post_each h net endpoint items w
        = (if out = NetFail then Rejected else Pending,
           w\<lparr>fetch_log := fetch_log w @ posts h endpoint (take (Suc k) items)\<rparr>) \<and>
      (endpoint = ''/api/monastery-visits'' \<longrightarrow>
         syncMonasteryData_from h net items w
           = (if out = NetFail then Fulfilled () else Pending,
              w\<lparr>fetch_log := fetch_log w @ posts h endpoint (take (Suc k) items)\<rparr>)) \<and>
      (endpoint = ''/api/chat-messages'' \<longrightarrow>
         syncChatMessages_from h net items w
           = (if out = NetFail then Fulfilled () else Pending,
              w\<lparr>fetch_log := fetch_log w @ posts h endpoint (take (Suc k) items)\<rparr>))"
    if "k < length items"
      and "\<forall>i<k. \<exists>r. post_outcome h net endpoint items w i = NetResp r"
      and "post_outcome h net endpoint items w k = out"
      and "out = NetFail \<or> out = NetHang"
    for k out
    using post_each_stops [OF that]
    by (auto simp: syncMonasteryData_from_def syncChatMessages_from_def)
  show ?thesis
    apply (rule conjI)
     apply (rule impI, erule all_sent)
    apply (intro allI impI)
    apply (elim conjE)
    apply (erule (3) stopped)
    done
qed

theorem deferred_sync_in_list_order_witness:
  "syncMonasteryData_from example_host net_second_fails [''v1'', ''v2'', ''v3''] empty_world
     = (Fulfilled (),
        empty_world\<lparr>fetch_log :=
          [post_request example_host ''/api/monastery-visits'' ''v1'',
           post_request example_host ''/api/monastery-visits'' ''v2'']\<rparr>) \<and>
   syncChatMessages_from example_host net_hangs [''m1'', ''m2''] empty_world
     = (Pending,
        empty_world\<lparr>fetch_log := [post_request example_host ''/api/chat-messages'' ''m1'']\<rparr>) \<and>
   syncMonasteryData_from example_host (net_answers 200) [''v1'', ''v2'', ''v3''] empty_world
     = (Fulfilled (),
        empty_world\<lparr>fetch_log :=
          [post_request example_host ''/api/monastery-visits'' ''v1'',
           post_request example_host ''/api/monastery-visits'' ''v2'',
           post_request example_host ''/api/monastery-visits'' ''v3''],
          posted := [(1, SYNC_COMPLETE 3), (2, SYNC_COMPLETE 3)]\<rparr>)"
proof -
  have k: "1 < length [''v1'', ''v2'', ''v3'']" by simp
  have before: "\<forall>i<1. \<exists>r. post_outcome example_host net_second_fails ''/api/monastery-visits''
      [''v1'', ''v2'', ''v3''] empty_world i = NetResp r"
    by (simp add: post_outcome_def net_second_fails_def empty_world_def)
  have at: "post_outcome example_host net_second_fails ''/api/monastery-visits''
      [''v1'', ''v2'', ''v3''] empty_world 1 = NetFail"
    by (simp add: post_outcome_def net_second_fails_def empty_world_def)
  have k0: "0 < length [''m1'', ''m2'']" by simp
  have before0: "\<forall>i<0. \<exists>r. post_outcome example_host net_hangs ''/api/chat-messages''
      [''m1'', ''m2''] empty_world i = NetResp r"
    by simp
  have at0: "post_outcome example_host net_hangs ''/api/chat-messages''
      [''m1'', ''m2''] empty_world 0 = NetHang"
    by (simp add: post_outcome_def net_hangs_def)
  have all: "\<forall>i<length [''v1'', ''v2'', ''v3'']. \<exists>r.
      post_outcome example_host (net_answers 200) ''/api/monastery-visits''
        [''v1'', ''v2'', ''v3''] empty_world i = NetResp r"
    by (simp add: post_outcome_def net_answers_def)
  note fails = deferred_sync_in_list_order
    [where h = example_host and net = net_second_fails and endpoint = "''/api/monastery-visits''"
       and items = "[''v1'', ''v2'', ''v3'']" and w = empty_world,
     THEN conjunct2, THEN spec [where x = "1::nat"], THEN spec [where x = NetFail], THEN mp]
  note hangs = deferred_sync_in_list_order
    [where h = example_host and net = net_hangs and endpoint = "''/api/chat-messages''"
       and items = "[''m1'', ''m2'']" and w = empty_world,
     THEN conjunct2, THEN spec [where x = "0::nat"], THEN spec [where x = NetHang], THEN mp]
  note answered = deferred_sync_in_list_order
    [where h = example_host and net = "net_answers 200" and endpoint = "''/api/monastery-visits''"
       and items = "[''v1'', ''v2'', ''v3'']" and w = empty_world,
     THEN conjunct1, THEN mp, OF all]
  have a: "syncMonasteryData_from example_host net_second_fails [''v1'', ''v2'', ''v3''] empty_world
     = (Fulfilled (),
        empty_world\<lparr>fetch_log :=
          [post_request example_host ''/api/monastery-visits'' ''v1'',
           post_request example_host ''/api/monastery-visits'' ''v2'']\<rparr>)"
    using fails k before at by (simp add: posts_def JSON_stringify_def empty_world_def)
  have b: "syncChatMessages_from example_host net_hangs [''m1'', ''m2''] empty_world
     = (Pending,
        empty_world\<lparr>fetch_log := [post_request example_host ''/api/chat-messages'' ''m1'']\<rparr>)"
    using hangs k0 before0 at0 by (simp add: posts_def JSON_stringify_def empty_world_def)
  have c: "syncMonasteryData_from example_host (net_answers 200) [''v1'', ''v2'', ''v3''] empty_world
     = (Fulfilled (),
        empty_world\<lparr>fetch_log :=
          [post_request example_host ''/api/monastery-visits'' ''v1'',
           post_request example_host ''/api/monastery-visits'' ''v2'',
           post_request example_host ''/api/monastery-visits'' ''v3''],
          posted := [(1, SYNC_COMPLETE 3), (2, SYNC_COMPLETE 3)]\<rparr>)"
    using answered
    by (simp add: posts_def JSON_stringify_def empty_world_def notify_clients_def
        numeral_3_eq_3)
  from a b c show ?thesis by simp
qed

text \<open>
  The specification's wording of C8, any failed POST ends the batch, fails for a POST
  that the server answers with an error: the second of three POSTs is answered with
  status 500, all three items are sent and the clients are told that three were synced.
\<close>

theorem answered_with_500_goes_on:
  "net_second_500 1 (post_request example_host ''/api/monastery-visits'' ''v2'')
     = NetResp (text_response 500 ''answer'') \<and>
   syncMonasteryData_from example_host net_second_500 [''v1'', ''v2'', ''v3''] empty_world
     = (Fulfilled (),
        empty_world\<lparr>fetch_log :=
          [post_request example_host ''/api/monastery-visits'' ''v1'',
           post_request example_host ''/api/monastery-visits'' ''v2'',
           post_request example_host ''/api/monastery-visits'' ''v3''],
          posted := [(1, SYNC_COMPLETE 3), (2, SYNC_COMPLETE 3)]\<rparr>)"
  by (simp add: syncMonasteryData_from_def fetch_def net_second_500_def JSON_stringify_def
      notify_clients_def empty_world_def numeral_3_eq_3)

lemma syncMonasteryData_notifies:
  assumes "\<forall>i<length items. \<exists>r. post_outcome h net ''/api/monastery-visits'' items w i = NetResp r"
  shows "posted (snd (syncMonasteryData_from h net items w))
           = posted w @ map (\<lambda>client. (client, SYNC_COMPLETE (length items))) (clients w)"
  using post_each_all_answered [OF assms]
  by (simp add: syncMonasteryData_from_def notify_clients_def)

lemma syncChatMessages_never_notifies:
  "posted (snd (syncChatMessages_from h net items w)) = posted w"
proof -
  obtain p w1 where run: "post_each h net ''/api/chat-messages'' items w = (p, w1)"
    by force
  with post_each_keeps_clients [of h net "''/api/chat-messages''" items w]
  have "posted w1 = posted w" by simp
  with run show ?thesis
    by (cases p) (simp_all add: syncChatMessages_from_def)
qed

text \<open>
  C9 at the input where the script departs from it: a sync event with the tag
  \<^verbatim>\<open>background-chat-sync\<close>, two controlled clients, the network up. The batch succeeds and
  no message is posted, for the stub's empty queue as for a queue of two messages; the
  tag \<^verbatim>\<open>background-monastery-sync\<close> posts \<^verbatim>\<open>SYNC_COMPLETE\<close> to both clients.
\<close>

theorem chat_sync_posts_no_message:
  "sync_listener example_host (net_answers 200) ''background-chat-sync'' empty_world
     = (Some (Fulfilled ()), empty_world) \<and>
   clients empty_world = [1, 2] \<and>
   posted (snd (sync_listener example_host (net_answers 200) ''background-monastery-sync'' empty_world))
     = [(1, SYNC_COMPLETE 0), (2, SYNC_COMPLETE 0)] \<and>
   fst (syncChatMessages_from example_host (net_answers 200) [''m1'', ''m2''] empty_world) = Fulfilled () \<and>
   posted (snd (syncChatMessages_from example_host (net_answers 200) [''m1'', ''m2''] empty_world)) = []"
  by (simp add: sync_listener_def syncChatMessages_def syncChatMessages_from_def
      syncMonasteryData_def syncMonasteryData_from_def getPendingChatMessages_def
      getPendingVisits_def notify_clients_def empty_world_def fetch_def net_answers_def)

subsection \<open>Install\<close>

lemma fetch_all_closed:
  "fetch_all net reqs w
     = (outcomes net (length (fetch_log w)) reqs, w\<lparr>fetch_log := fetch_log w @ reqs\<rparr>)"
  by (induction reqs arbitrary: w) (simp_all add: fetch_def)

lemma outcomes_length: "length (outcomes net n reqs) = length reqs"
  by (induction reqs arbitrary: n) simp_all

lemma outcomes_nth: "i < length reqs \<Longrightarrow> outcomes net n reqs ! i = net (n + i) (reqs ! i)"
proof (induction reqs arbitrary: n i)
  case Nil
  then show ?case by simp
next
  case (Cons q qs)
  then show ?case by (cases i) simp_all
qed

lemma map_of_filter_other:
  "map_of (filter (\<lambda>e. fst e \<noteq> k') c) k = (if k = k' then None else map_of c k)"
  by (induction c) auto

lemma cache_match_put:
  "rmethod req' = ''GET'' \<Longrightarrow>
   cache_match req (cache_put req' resp c) =
     (if rmethod req = ''GET'' \<and> url req = url req' then Some resp else cache_match req c)"
  by (auto simp: cache_match_def cache_put_def map_add_def map_of_filter_other
      split: option.splits)

lemma map_fst_put_in: "map fst (put_in name req resp cs) = map fst cs"
  by (induction name req resp cs rule: put_in.induct) simp_all

lemma names_put_in: "fst ` set (put_in name req resp cs) = fst ` set cs"
  using map_fst_put_in [of name req resp cs] by (metis set_map)

lemma put_all_keeps_match:
  "name \<in> fst ` set cs \<Longrightarrow> \<forall>(q, out) \<in> set ps. rmethod q = ''GET'' \<Longrightarrow>
   cache_match req (region name cs) \<noteq> None \<Longrightarrow>
   cache_match req (region name (put_all name ps cs)) \<noteq> None"
proof (induction name ps cs rule: put_all.induct)
  case (1 name cs)
  then show ?case by simp
next
  case (2 name q r rest cs)
  have "cache_match req (region name (put_in name q r cs)) \<noteq> None"
    using 2 by (simp add: region_put_in_same cache_match_put)
  with 2 show ?case by (simp add: names_put_in)
qed simp_all

lemma put_all_stores:
  "name \<in> fst ` set cs \<Longrightarrow> \<forall>(q, out) \<in> set ps. rmethod q = ''GET'' \<Longrightarrow>
   (req, NetResp r) \<in> set ps \<Longrightarrow>
   cache_match req (region name (put_all name ps cs)) \<noteq> None"
proof (induction name ps cs rule: put_all.induct)
  case (1 name cs)
  then show ?case by simp
next
  case (2 name q r' rest cs)
  have names: "name \<in> fst ` set (put_in name q r' cs)"
    using 2 by (simp add: names_put_in)
  have gets: "\<forall>(q, out) \<in> set rest. rmethod q = ''GET''"
    using 2 by simp
  show ?case
  proof (cases "(req, NetResp r) \<in> set rest")
    case True
    from "2.IH" [OF names gets True] show ?thesis by simp
  next
    case False
    with 2 have "req = q" by simp
    with 2 have "cache_match req (region name (put_in name q r' cs)) \<noteq> None"
      by (simp add: region_put_in_same cache_match_put)
    from put_all_keeps_match [OF names gets this] show ?thesis by simp
  qed
qed auto

lemma install_refused:
  assumes "i < length STATIC_ASSETS" and "refused (asset_outcome h net w i)"
  shows "install_listener h net w
           = (Fulfilled (),
              w\<lparr>caches := caches_open STATIC_CACHE (caches w),
                fetch_log := fetch_log w @ map (Request h) STATIC_ASSETS\<rparr>)"
proof -
  let ?w0 = "w\<lparr>caches := caches_open STATIC_CACHE (caches w)\<rparr>"
  let ?reqs = "map (Request h) STATIC_ASSETS"
  obtain outs w1 where run: "fetch_all net ?reqs ?w0 = (outs, w1)"
    by force
  have outs: "outs = outcomes net (length (fetch_log w)) ?reqs"
    using run by (simp add: fetch_all_closed)
  have len: "length outs = length STATIC_ASSETS"
    by (simp add: outs outcomes_length)
  have "outs ! i = asset_outcome h net w i"
    using assms(1) by (simp add: outs outcomes_nth asset_outcome_def)
  with assms len have "\<exists>out \<in> set outs. refused out"
    by (metis nth_mem)
  then have "list_ex refused outs"
    by (simp add: list_ex_iff)
  moreover have "w1 = ?w0\<lparr>fetch_log := fetch_log ?w0 @ ?reqs\<rparr>"
    using run by (simp add: fetch_all_closed)
  ultimately show ?thesis
    using run by (simp add: install_listener_def cache_addAll_def)
qed

lemma install_all_answered:
  assumes "\<forall>i<length STATIC_ASSETS. \<exists>r. asset_outcome h net w i = NetResp r \<and> \<not> refused (NetResp r)"
  shows "fst (install_listener h net w) = Fulfilled () \<and>
         skip_waiting (snd (install_listener h net w)) \<and>
         (\<forall>asset \<in> set STATIC_ASSETS.
            cache_match (Request h asset)
              (region STATIC_CACHE (caches (snd (install_listener h net w)))) \<noteq> None)"
proof -
  let ?w0 = "w\<lparr>caches := caches_open STATIC_CACHE (caches w)\<rparr>"
  let ?reqs = "map (Request h) STATIC_ASSETS"
  obtain outs w1 where run: "fetch_all net ?reqs ?w0 = (outs, w1)"
    by force
  have outs: "outs = outcomes net (length (fetch_log w)) ?reqs"
    using run by (simp add: fetch_all_closed)
  have len: "length outs = length STATIC_ASSETS"
    by (simp add: outs outcomes_length)
  have nth: "outs ! i = asset_outcome h net w i" if "i < length STATIC_ASSETS" for i
    using that by (simp add: outs outcomes_nth asset_outcome_def)
  have w1: "w1 = ?w0\<lparr>fetch_log := fetch_log ?w0 @ ?reqs\<rparr>"
    using run by (simp add: fetch_all_closed)
  have good: "\<exists>r. out = NetResp r \<and> \<not> refused (NetResp r)" if "out \<in> set outs" for out
  proof -
    from that obtain i where "i < length outs" and "outs ! i = out"
      by (auto simp: in_set_conv_nth)
    with assms len nth show ?thesis by metis
  qed
  have no_refused: "\<not> list_ex refused outs"
    unfolding list_ex_iff using good by blast
  have no_hang: "\<not> list_ex (\<lambda>out. out = NetHang) outs"
    unfolding list_ex_iff using good by blast
  let ?cs = "put_all STATIC_CACHE (zip ?reqs outs) (caches w1)"
  have result: "install_listener h net w = (Fulfilled (), w1\<lparr>caches := ?cs, skip_waiting := True\<rparr>)"
    using run no_refused no_hang by (simp add: install_listener_def cache_addAll_def)
  have stored: "cache_match (Request h asset) (region STATIC_CACHE ?cs) \<noteq> None"
    if "asset \<in> set STATIC_ASSETS" for asset
  proof -
    from that obtain i where i: "i < length STATIC_ASSETS" and a: "STATIC_ASSETS ! i = asset"
      by (auto simp: in_set_conv_nth)
    from i len have "outs ! i \<in> set outs" by simp
    then obtain r where r: "outs ! i = NetResp r" using good by blast
    have "(?reqs ! i, outs ! i) \<in> set (zip ?reqs outs)"
      using i len by (metis length_map length_zip min.idem nth_mem nth_zip)
    then have mem: "(Request h asset, NetResp r) \<in> set (zip ?reqs outs)"
      using i a r by simp
    have gets: "\<forall>(q, out) \<in> set (zip ?reqs outs). rmethod q = ''GET''"
      by (auto simp: Request_def dest!: set_zip_leftD)
    have "STATIC_CACHE \<in> fst ` set (caches w1)"
      using w1 name_in_caches_open by simp
    from put_all_stores [OF this gets mem] show ?thesis .
  qed
  from result stored show ?thesis by simp
qed

lemma install_never_rejects: "fst (install_listener h net w) \<noteq> Rejected"
  by (simp add: install_listener_def split: prod.split promise.split)

text \<open>
  C4, as the script has it. The promise the install listener hands to \<^verbatim>\<open>waitUntil\<close> is
  never rejected: the \<^verbatim>\<open>catch\<close> handler at the end of the chain takes the failure. When
  the fetch of some asset fails or is answered with a status that \<^verbatim>\<open>addAll\<close> refuses, the
  promise is fulfilled all the same, nothing is stored in any cache and \<^verbatim>\<open>skipWaiting\<close> is
  not called. When every asset is fetched and accepted, the promise is fulfilled,
  \<^verbatim>\<open>skipWaiting\<close> is called and the static cache matches each asset of the list.
\<close>

theorem install_all_or_nothing:
  "fst (install_listener h net w) \<noteq> Rejected \<and>
   ((\<exists>i<length STATIC_ASSETS. refused (asset_outcome h net w i)) \<longrightarrow>
      fst (install_listener h net w) = Fulfilled () \<and>
      skip_waiting (snd (install_listener h net w)) = skip_waiting w \<and>
      (\<forall>name. region name (caches (snd (install_listener h net w))) = region name (caches w))) \<and>
   ((\<forall>i<length STATIC_ASSETS. \<exists>r. asset_outcome h net w i = NetResp r \<and> \<not> refused (NetResp r)) \<longrightarrow>
      fst (install_listener h net w) = Fulfilled () \<and>
      skip_waiting (snd (install_listener h net w)) \<and>
      (\<forall>asset \<in> set STATIC_ASSETS.
         cache_match (Request h asset)
           (region STATIC_CACHE (caches (snd (install_listener h net w)))) \<noteq> None))"
proof -
  have never: "fst (install_listener h net w) \<noteq> Rejected"
    by (rule install_never_rejects)
  have none_stored: "fst (install_listener h net w) = Fulfilled () \<and>
      skip_waiting (snd (install_listener h net w)) = skip_waiting w \<and>
      (\<forall>name. region name (caches (snd (install_listener h net w))) = region name (caches w))"
    if "\<exists>i<length STATIC_ASSETS. refused (asset_outcome h net w i)"
  proof -
    from that obtain i where "i < length STATIC_ASSETS" and "refused (asset_outcome h net w i)"
      by blast
    from install_refused [OF this] show ?thesis
      by (simp add: region_caches_open)
  qed
  have all_stored: "fst (install_listener h net w) = Fulfilled () \<and>
      skip_waiting (snd (install_listener h net w)) \<and>
      (\<forall>asset \<in> set STATIC_ASSETS.
         cache_match (Request h asset)
           (region STATIC_CACHE (caches (snd (install_listener h net w)))) \<noteq> None)"
    if "\<forall>i<length STATIC_ASSETS. \<exists>r. asset_outcome h net w i = NetResp r \<and> \<not> refused (NetResp r)"
    using install_all_answered [OF that] .
  show ?thesis
    apply (rule conjI [OF never])
    apply (rule conjI)
     apply (rule impI, erule none_stored)
    apply (rule impI, erule all_stored)
    done
qed

lemma cdn_asset: "STATIC_ASSETS ! 3 = ''https://cdn.tailwindcss.com'' \<and> 3 < length STATIC_ASSETS"
  by (simp add: STATIC_ASSETS_def)

lemma cdn_refused: "refused (asset_outcome example_host net_cdn_down w 3)"
  by (simp add: asset_outcome_def cdn_asset net_cdn_down_def Request_def example_host_def)

theorem install_all_or_nothing_witness:
  "fst (install_listener example_host net_cdn_down empty_world) = Fulfilled () \<and>
   skip_waiting (snd (install_listener example_host net_cdn_down empty_world)) = False \<and>
   fst (install_listener example_host (net_answers 200) empty_world) = Fulfilled () \<and>
   skip_waiting (snd (install_listener example_host (net_answers 200) empty_world)) \<and>
   cache_match (Request example_host ''/manifest.json'')
     (region STATIC_CACHE (caches (snd (install_listener example_host (net_answers 200) empty_world))))
     \<noteq> None"
proof -
  have bad: "\<exists>i<length STATIC_ASSETS. refused (asset_outcome example_host net_cdn_down empty_world i)"
    using cdn_asset cdn_refused by blast
  have good: "\<forall>i<length STATIC_ASSETS. \<exists>r.
      asset_outcome example_host (net_answers 200) empty_world i = NetResp r \<and> \<not> refused (NetResp r)"
    by (simp add: asset_outcome_def net_answers_def text_response_def)
  have mem: "''/manifest.json'' \<in> set STATIC_ASSETS"
    by (simp add: STATIC_ASSETS_def)
  have "skip_waiting empty_world = False"
    by (simp add: empty_world_def)
  with bad good mem show ?thesis
    using install_all_or_nothing [of example_host net_cdn_down empty_world]
      install_all_or_nothing [of example_host "net_answers 200" empty_world]
    by blast
qed

text \<open>
  The specification's wording of C4, a failed asset fails the install, fails: the fetch
  of the fourth asset fails, and the install promise is fulfilled, with an empty static
  cache.
\<close>

theorem install_failure_is_swallowed:
  "asset_outcome example_host net_cdn_down empty_world 3 = NetFail \<and>
   fst (install_listener example_host net_cdn_down empty_world) = Fulfilled () \<and>
   region STATIC_CACHE (caches (snd (install_listener example_host net_cdn_down empty_world))) = []"
proof -
  have "3 < length STATIC_ASSETS" by (simp add: cdn_asset)
  from install_refused [OF this cdn_refused, of empty_world]
  show ?thesis
    by (simp add: asset_outcome_def cdn_asset net_cdn_down_def Request_def example_host_def
        region_caches_open) (simp add: region_def empty_world_def)
qed

end
